theory Spec2Isabelle
  imports Complex_Main "HOL-Library.AList"
begin

section \<open>Python values and exceptions\<close>

text \<open>
  Exceptions of the Python source are values: a function that can raise returns
  \<open>error + 'a\<close>, with \<open>Inl\<close> the exception. Python's \<open>None\<close> is the \<open>None\<close> of
  an option type. Strings are \<open>char list\<close>; a character stands for the code point of
  the same number (0 to 255).
\<close>

datatype error = IndexError | AttributeError | TypeError | ValueError

section \<open>msgParser.py: the wire codec\<close>

text \<open>
  A Python \<open>dict\<close> keeps its keys in insertion order, and an assignment to a key that is
  already there keeps the key's place: an association list with distinct keys, updated
  by \<open>AList.update\<close>.
\<close>

type_synonym 'v pydict = "(string \<times> 'v) list"

text \<open>\<open>str.find(c, start)\<close> for a single character: \<open>None\<close> is Python's \<open>-1\<close>.\<close>

primrec index_of :: "char \<Rightarrow> string \<Rightarrow> nat option" where
  "index_of c [] = None"
| "index_of c (x # xs) = (if x = c then Some 0 else map_option Suc (index_of c xs))"

definition find :: "string \<Rightarrow> char \<Rightarrow> nat \<Rightarrow> nat option" where
  "find s c start = map_option (\<lambda>i. start + i) (index_of c (drop start s))"

text \<open>The slice \<open>s[i:j]\<close> for \<open>0 \<le> i\<close>, \<open>0 \<le> j\<close>: empty when \<open>j \<le> i\<close>.\<close>

definition slice :: "string \<Rightarrow> nat \<Rightarrow> nat \<Rightarrow> string" where
  "slice s i j = take (j - i) (drop i s)"

text \<open>\<open>str.isspace\<close> on the code points below 256.\<close>

definition isspace :: "char \<Rightarrow> bool" where
  "isspace c = (of_char c \<in> {9, 10, 11, 12, 13, 28, 29, 30, 31, 32, 133, 160 :: nat})"

text \<open>
  \<open>str.split()\<close> with no argument: the maximal runs of non-whitespace characters, in
  order. \<open>cur\<close> is the run being read.
\<close>

fun split_aux :: "string \<Rightarrow> string \<Rightarrow> string list" where
  "split_aux [] cur = (if cur = [] then [] else [cur])"
| "split_aux (c # cs) cur =
     (if isspace c then (if cur = [] then split_aux cs [] else cur # split_aux cs [])
      else split_aux cs (cur @ [c]))"

definition split :: "string \<Rightarrow> string list" where
  "split s = split_aux s []"

lemma index_of_Some:
  "index_of c xs = Some i \<Longrightarrow> i < length xs \<and> xs ! i = c"
  by (induction xs arbitrary: i) (auto split: if_splits)

lemma find_Some:
  "find s c start = Some i \<Longrightarrow> start \<le> i \<and> i < length s \<and> s ! i = c"
  unfolding find_def by (auto dest!: index_of_Some)

text \<open>
  The \<open>while b_open >= 0\<close> loop of \<open>MsgParser.parse\<close>; \<open>b_open\<close> is the index the
  last \<open>find('(')\<close> returned. \<open>None\<close> is the \<open>return None\<close> of the source.
\<close>

function parse_loop :: "string \<Rightarrow> nat \<Rightarrow> string list pydict \<Rightarrow> string list pydict option" where
  "parse_loop str_sensors b_open sensors =
     (case find str_sensors (CHR '')'') b_open of
        None \<Rightarrow> None
      | Some b_close \<Rightarrow>
          (let substr = slice str_sensors (b_open + 1) b_close;
               items = split substr;
               sensors' = (if length items < 2 then sensors
                           else AList.update (hd items) (tl items) sensors)
           in case find str_sensors (CHR ''('') b_close of
                None \<Rightarrow> Some sensors'
              | Some b_open' \<Rightarrow>
                  parse_loop str_sensors b_open' sensors'))"
  by pat_completeness auto
termination
proof (relation "measure (\<lambda>(s, b, _). length s - b)", goal_cases)
  case 1
  show ?case by simp
next
  case (2 str_sensors b_open sensors b_close substr items sensors' b_open')
  from 2(1) have a: "b_open \<le> b_close" "str_sensors ! b_close = CHR '')''"
    by (auto dest: find_Some)
  from 2(5) have b: "b_close \<le> b_open'" "b_open' < length str_sensors"
    "str_sensors ! b_open' = CHR ''(''"
    by (auto dest: find_Some)
  from a b have "b_close \<noteq> b_open'" by auto
  with a b show ?case by simp
qed

declare parse_loop.simps [simp del]

definition parse :: "string \<Rightarrow> string list pydict option" where
  "parse str_sensors =
     (case find str_sensors (CHR ''('') 0 of
        None \<Rightarrow> Some []
      | Some b_open \<Rightarrow> parse_loop str_sensors b_open [])"

text \<open>\<open>sep.join(xs)\<close>.\<close>

fun join :: "string \<Rightarrow> string list \<Rightarrow> string" where
  "join sep [] = []"
| "join sep [x] = x"
| "join sep (x # y # ys) = x @ sep @ join sep (y # ys)"

text \<open>
  \<open>str(v)\<close> for an element of a value sequence: \<open>None\<close> prints as \<open>None\<close>;
  what \<open>str\<close> does on the other scalars is the parameter \<open>str\<close> (the identity
  on strings).
\<close>

fun pystr :: "('t \<Rightarrow> string) \<Rightarrow> 't option \<Rightarrow> string" where
  "pystr str None = ''None''"
| "pystr str (Some v) = str v"

text \<open>
  The \<open>for key, value in dictionary.items()\<close> loop of \<open>MsgParser.stringify\<close>,
  with \<open>msg\<close> the text built so far. A value is \<open>None\<close> or a list of scalars, each
  of which may be \<open>None\<close>; \<open>value[0]\<close> of an empty list raises \<open>IndexError\<close>.
\<close>

fun stringify_loop ::
  "('t \<Rightarrow> string) \<Rightarrow> 't option list option pydict \<Rightarrow> string \<Rightarrow> error + string" where
  "stringify_loop str [] msg = Inr msg"
| "stringify_loop str ((key, value) # rest) msg =
     (case value of
        None \<Rightarrow> stringify_loop str rest msg
      | Some [] \<Rightarrow> Inl IndexError
      | Some (None # vs) \<Rightarrow> stringify_loop str rest msg
      | Some (Some v # vs) \<Rightarrow>
          stringify_loop str rest
            (msg @ ''('' @ key @ '' '' @ join '' '' (map (pystr str) (Some v # vs)) @ '')''))"

definition stringify :: "('t \<Rightarrow> string) \<Rightarrow> 't option list option pydict \<Rightarrow> error + string" where
  "stringify str dictionary = stringify_loop str dictionary ''''"

text \<open>A dictionary of string tokens, as \<open>parse\<close> returns it, seen as an input of \<open>stringify\<close>.\<close>

definition tokens_dict :: "string list pydict \<Rightarrow> string option list option pydict" where
  "tokens_dict m = map (\<lambda>(key, value). (key, Some (map Some value))) m"

definition stringify_tokens :: "string list pydict \<Rightarrow> error + string" where
  "stringify_tokens m = stringify (\<lambda>s. s) (tokens_dict m)"

text \<open>Python's \<open>==\<close> on dictionaries ignores the order of the keys.\<close>

definition dict_eq :: "'v pydict \<Rightarrow> 'v pydict \<Rightarrow> bool" where
  "dict_eq a b = (set a = set b)"

subsection \<open>Notions used to state the codec's properties\<close>

text \<open>
  \<open>parse\<close> from the point where the next \<open>find('(')\<close> is due, with the dictionary
  read so far: \<open>parse s = parse_from s []\<close>.
\<close>

definition parse_from :: "string \<Rightarrow> string list pydict \<Rightarrow> string list pydict option" where
  "parse_from s acc =
     (case find s (CHR ''('') 0 of None \<Rightarrow> Some acc | Some b \<Rightarrow> parse_loop s b acc)"

text \<open>
  A text is unterminated when one of its opening parentheses has no closing parenthesis
  anywhere after it.
\<close>

fun unterminated :: "string \<Rightarrow> bool" where
  "unterminated [] = False"
| "unterminated (c # cs) = ((c = CHR ''('' \<and> CHR '')'' \<notin> set cs) \<or> unterminated cs)"

text \<open>What one group does to the dictionary: lines 28 to 31 of \<open>msgParser.py\<close>.\<close>

definition store_items :: "string list \<Rightarrow> string list pydict \<Rightarrow> string list pydict" where
  "store_items items sensors =
     (if length items < 2 then sensors else AList.update (hd items) (tl items) sensors)"

text \<open>
  A tag or token that survives the wire: not empty, no parenthesis and no whitespace.
\<close>

definition plain_token :: "string \<Rightarrow> bool" where
  "plain_token t =
     (t \<noteq> [] \<and> (\<forall>c\<in>set t. c \<noteq> CHR ''('' \<and> c \<noteq> CHR '')'' \<and> \<not> isspace c))"

text \<open>The text of one group, \<open>(tag v1 v2 ...)\<close>.\<close>

definition group :: "string \<times> string list \<Rightarrow> string" where
  "group kv = ''('' @ fst kv @ '' '' @ join '' '' (snd kv) @ '')''"

text \<open>
  The entries \<open>stringify\<close> writes: the value is a list whose first element is not
  \<open>None\<close>. \<open>render\<close> is the text written for an entry.
\<close>

fun emitted :: "'t option list option \<Rightarrow> bool" where
  "emitted (Some (Some v # vs)) = True"
| "emitted value = False"

fun render :: "('t \<Rightarrow> string) \<Rightarrow> string \<times> 't option list option \<Rightarrow> string" where
  "render str (key, Some value) = ''('' @ key @ '' '' @ join '' '' (map (pystr str) value) @ '')''"
| "render str (key, None) = []"

section \<open>Python builtins the code calls\<close>

text \<open>
  \<open>float(s)\<close> and \<open>int(s)\<close> on a string, and \<open>str(v)\<close> on a number, belong to
  the interpreter: they are parameters of the model. \<open>None\<close> is the \<open>ValueError\<close> of
  a string that is no number. Floating-point numbers are modelled as reals.
\<close>

datatype scalar = SFloat real | SInt int

record builtins =
  py_float :: "string \<Rightarrow> real option"
  py_int :: "string \<Rightarrow> int option"
  py_str :: "scalar \<Rightarrow> string"

text \<open>
  A method of an object that may raise: the object as the method left it, and either its
  return value or the exception. An exception keeps the assignments made before it.
\<close>

datatype ('a, 's) res = Ok 'a 's | Exn error 's

fun state_of :: "('a, 's) res \<Rightarrow> 's" where
  "state_of (Ok a s) = s"
| "state_of (Exn e s) = s"

fun returned :: "('a, 's) res \<Rightarrow> 'a option" where
  "returned (Ok a s) = Some a"
| "returned (Exn e s) = None"

fun raised :: "('a, 's) res \<Rightarrow> error option" where
  "raised (Ok a s) = None"
| "raised (Exn e s) = Some e"

text \<open>Statements one after the other: the first exception ends the sequence.\<close>

fun seq :: "('s \<Rightarrow> (unit, 's) res) list \<Rightarrow> 's \<Rightarrow> (unit, 's) res" where
  "seq [] s = Ok () s"
| "seq (stmt # stmts) s =
     (case stmt s of Exn e s' \<Rightarrow> Exn e s' | Ok _ s' \<Rightarrow> seq stmts s')"

section \<open>carState.py\<close>

text \<open>
  The attributes of \<open>CarState\<close>, by the conversion their setter applies: \<open>float\<close> of
  the first token, \<open>float\<close> of every token, \<open>int\<close> of the first token. Each attribute
  holds \<open>None\<close> or a value of its kind.
\<close>

datatype float_field =
  Angle | CurLapTime | Damage | DistFromStart | DistRaced | Fuel | LastLapTime | Rpm
  | SpeedX | SpeedY | SpeedZ | TrackPos | Z | X | Y

datatype list_field = Focus | Opponents | Track | WheelSpinVel

datatype int_field = Gear | RacePos

datatype field = F float_field | L list_field | I int_field

fun float_tag :: "float_field \<Rightarrow> string" where
  "float_tag Angle = ''angle''"
| "float_tag CurLapTime = ''curLapTime''"
| "float_tag Damage = ''damage''"
| "float_tag DistFromStart = ''distFromStart''"
| "float_tag DistRaced = ''distRaced''"
| "float_tag Fuel = ''fuel''"
| "float_tag LastLapTime = ''lastLapTime''"
| "float_tag Rpm = ''rpm''"
| "float_tag SpeedX = ''speedX''"
| "float_tag SpeedY = ''speedY''"
| "float_tag SpeedZ = ''speedZ''"
| "float_tag TrackPos = ''trackPos''"
| "float_tag Z = ''z''"
| "float_tag X = ''x''"
| "float_tag Y = ''y''"

fun list_tag :: "list_field \<Rightarrow> string" where
  "list_tag Focus = ''focus''"
| "list_tag Opponents = ''opponents''"
| "list_tag Track = ''track''"
| "list_tag WheelSpinVel = ''wheelSpinVel''"

fun int_tag :: "int_field \<Rightarrow> string" where
  "int_tag Gear = ''gear''"
| "int_tag RacePos = ''racePos''"

record car_state =
  sensors :: "string list pydict option"
  floats :: "float_field \<Rightarrow> real option"
  lists :: "list_field \<Rightarrow> real list option"
  ints :: "int_field \<Rightarrow> int option"

text \<open>\<open>CarState.__init__\<close>: every attribute is \<open>None\<close>.\<close>

definition CarState_init :: car_state where
  "CarState_init =
     \<lparr>sensors = None, floats = (\<lambda>f. None), lists = (\<lambda>f. None), ints = (\<lambda>f. None)\<rparr>"

text \<open>
  \<open>getFloatD\<close>, \<open>getFloatListD\<close> and \<open>getIntD\<close>. \<open>self.sensors.get\<close> raises
  \<open>AttributeError\<close> when \<open>self.sensors\<close> is \<open>None\<close>; \<open>val[0]\<close> raises \<open>IndexError\<close>
  on an empty list.
\<close>

definition getFloatD :: "builtins \<Rightarrow> car_state \<Rightarrow> string \<Rightarrow> error + real option" where
  "getFloatD B self name =
     (case sensors self of
        None \<Rightarrow> Inl AttributeError
      | Some d \<Rightarrow>
          (case map_of d name of
             None \<Rightarrow> Inr None
           | Some [] \<Rightarrow> Inl IndexError
           | Some (v # vs) \<Rightarrow>
               (case py_float B v of None \<Rightarrow> Inl ValueError | Some r \<Rightarrow> Inr (Some r))))"

fun float_list :: "builtins \<Rightarrow> string list \<Rightarrow> error + real list" where
  "float_list B [] = Inr []"
| "float_list B (v # vs) =
     (case py_float B v of
        None \<Rightarrow> Inl ValueError
      | Some r \<Rightarrow> (case float_list B vs of Inl e \<Rightarrow> Inl e | Inr rs \<Rightarrow> Inr (r # rs)))"

definition getFloatListD :: "builtins \<Rightarrow> car_state \<Rightarrow> string \<Rightarrow> error + real list option" where
  "getFloatListD B self name =
     (case sensors self of
        None \<Rightarrow> Inl AttributeError
      | Some d \<Rightarrow>
          (case map_of d name of
             None \<Rightarrow> Inr None
           | Some val \<Rightarrow> (case float_list B val of Inl e \<Rightarrow> Inl e | Inr rs \<Rightarrow> Inr (Some rs))))"

definition getIntD :: "builtins \<Rightarrow> car_state \<Rightarrow> string \<Rightarrow> error + int option" where
  "getIntD B self name =
     (case sensors self of
        None \<Rightarrow> Inl AttributeError
      | Some d \<Rightarrow>
          (case map_of d name of
             None \<Rightarrow> Inr None
           | Some [] \<Rightarrow> Inl IndexError
           | Some (v # vs) \<Rightarrow>
               (case py_int B v of None \<Rightarrow> Inl ValueError | Some i \<Rightarrow> Inr (Some i))))"

text \<open>The setters \<open>setAngleD\<close>, ..., \<open>setYD\<close>: \<open>self.attr = self.get...D(tag)\<close>.\<close>

fun setD :: "builtins \<Rightarrow> field \<Rightarrow> car_state \<Rightarrow> (unit, car_state) res" where
  "setD B (F f) self =
     (case getFloatD B self (float_tag f) of
        Inl e \<Rightarrow> Exn e self
      | Inr v \<Rightarrow> Ok () (self\<lparr>floats := (floats self)(f := v)\<rparr>))"
| "setD B (L f) self =
     (case getFloatListD B self (list_tag f) of
        Inl e \<Rightarrow> Exn e self
      | Inr v \<Rightarrow> Ok () (self\<lparr>lists := (lists self)(f := v)\<rparr>))"
| "setD B (I f) self =
     (case getIntD B self (int_tag f) of
        Inl e \<Rightarrow> Exn e self
      | Inr v \<Rightarrow> Ok () (self\<lparr>ints := (ints self)(f := v)\<rparr>))"

text \<open>The setters in the order in which \<open>setFromMsg\<close> calls them.\<close>

definition setters :: "field list" where
  "setters =
     [F Angle, F CurLapTime, F Damage, F DistFromStart, F DistRaced, L Focus, F Fuel, I Gear,
      F LastLapTime, L Opponents, I RacePos, F Rpm, F SpeedX, F SpeedY, F SpeedZ, L Track,
      F TrackPos, L WheelSpinVel, F Z, F X, F Y]"

definition setFromMsg :: "builtins \<Rightarrow> string \<Rightarrow> car_state \<Rightarrow> (unit, car_state) res" where
  "setFromMsg B str_sensors self =
     seq (map (setD B) setters) (self\<lparr>sensors := parse str_sensors\<rparr>)"

definition getRpm :: "car_state \<Rightarrow> real option" where
  "getRpm self = floats self Rpm"

definition getGear :: "car_state \<Rightarrow> int option" where
  "getGear self = ints self Gear"

definition getSpeedX :: "car_state \<Rightarrow> real option" where
  "getSpeedX self = floats self SpeedX"

definition getSpeedY :: "car_state \<Rightarrow> real option" where
  "getSpeedY self = floats self SpeedY"

definition getSpeedZ :: "car_state \<Rightarrow> real option" where
  "getSpeedZ self = floats self SpeedZ"

definition getAngle :: "car_state \<Rightarrow> real option" where
  "getAngle self = floats self Angle"

definition getTrackPos :: "car_state \<Rightarrow> real option" where
  "getTrackPos self = floats self TrackPos"

definition getDamage :: "car_state \<Rightarrow> real option" where
  "getDamage self = floats self Damage"

definition getTrack :: "car_state \<Rightarrow> real list option" where
  "getTrack self = lists self Track"

subsection \<open>What a setter leaves in its attribute\<close>

text \<open>
  The attribute after its setter has run on the decoded message \<open>d\<close>: \<open>None\<close> when
  \<open>d\<close> has no entry for the tag, and the converted tokens of the entry otherwise. The
  value the attribute held before plays no part.
\<close>

definition float_set :: "builtins \<Rightarrow> string list pydict \<Rightarrow> car_state \<Rightarrow> float_field \<Rightarrow> bool" where
  "float_set B d s f =
     ((map_of d (float_tag f) = None \<longrightarrow> floats s f = None) \<and>
      (\<forall>v vs. map_of d (float_tag f) = Some (v # vs) \<longrightarrow>
         (\<exists>r. py_float B v = Some r \<and> floats s f = Some r)))"

definition list_set :: "builtins \<Rightarrow> string list pydict \<Rightarrow> car_state \<Rightarrow> list_field \<Rightarrow> bool" where
  "list_set B d s f =
     ((map_of d (list_tag f) = None \<longrightarrow> lists s f = None) \<and>
      (\<forall>val. map_of d (list_tag f) = Some val \<longrightarrow>
         (\<exists>rs. float_list B val = Inr rs \<and> lists s f = Some rs)))"

definition int_set :: "builtins \<Rightarrow> string list pydict \<Rightarrow> car_state \<Rightarrow> int_field \<Rightarrow> bool" where
  "int_set B d s f =
     ((map_of d (int_tag f) = None \<longrightarrow> ints s f = None) \<and>
      (\<forall>v vs. map_of d (int_tag f) = Some (v # vs) \<longrightarrow>
         (\<exists>i. py_int B v = Some i \<and> ints s f = Some i)))"


section \<open>carControl.py\<close>

text \<open>
  \<open>gear\<close> can hold \<open>None\<close>: \<open>Driver.gear\<close> of \<open>rule_driver.py\<close> passes the
  state's gear on as it is.
\<close>

record car_control =
  accel :: real
  brake :: real
  gear :: "int option"
  steer :: real
  clutch :: real
  focus :: int
  meta :: int

text \<open>\<open>CarControl.__init__\<close> with its default arguments.\<close>

definition CarControl_init :: car_control where
  "CarControl_init =
     \<lparr>accel = 0, brake = 0, gear = Some 1, steer = 0, clutch = 0, focus = 0, meta = 0\<rparr>"

definition actions :: "car_control \<Rightarrow> scalar option list option pydict" where
  "actions self =
     [(''accel'', Some [Some (SFloat (accel self))]),
      (''brake'', Some [Some (SFloat (brake self))]),
      (''gear'', Some [map_option SInt (gear self)]),
      (''steer'', Some [Some (SFloat (steer self))]),
      (''clutch'', Some [Some (SFloat (clutch self))]),
      (''focus'', Some [Some (SInt (focus self))]),
      (''meta'', Some [Some (SInt (meta self))])]"

definition toMsg :: "builtins \<Rightarrow> car_control \<Rightarrow> error + string" where
  "toMsg B self = stringify (py_str B) (actions self)"

section \<open>new\_main/rule\_driver.py: the rule-based driver\<close>

text \<open>A driver object: its \<open>CarState\<close> and its \<open>CarControl\<close>.\<close>

record driver =
  state :: car_state
  control :: car_control

definition Driver_init :: driver where
  "Driver_init = \<lparr>state = CarState_init, control = CarControl_init\<rparr>"

definition steer_lock :: real where "steer_lock = 0.785398"
definition max_speed :: real where "max_speed = 200"
definition MIN_GEAR :: int where "MIN_GEAR = 1"
definition MAX_GEAR :: int where "MAX_GEAR = 6"
definition UPSHIFT_RPM :: real where "UPSHIFT_RPM = 7000"
definition DOWNSHIFT_RPM :: real where "DOWNSHIFT_RPM = 3000"
definition CURVATURE_SENSITIVITY :: real where "CURVATURE_SENSITIVITY = 0.6"
definition MIN_TURN_THRESHOLD :: real where "MIN_TURN_THRESHOLD = 0.4"
definition LOOK_AHEAD_DISTANCE :: nat where "LOOK_AHEAD_DISTANCE = 12"
definition CURVE_DETECTION_THRESHOLD :: real where "CURVE_DETECTION_THRESHOLD = 40"
definition SPEED_REDUCTION_FACTOR :: real where "SPEED_REDUCTION_FACTOR = 0.8"

text \<open>
  Arithmetic and comparison raise \<open>TypeError\<close> on \<open>None\<close>. \<open>need v k\<close> continues
  with the number in \<open>v\<close>.
\<close>

definition need :: "'a option \<Rightarrow> 's \<Rightarrow> ('a \<Rightarrow> ('b, 's) res) \<Rightarrow> ('b, 's) res" where
  "need v s k = (case v of None \<Rightarrow> Exn TypeError s | Some x \<Rightarrow> k x)"

text \<open>\<open>Driver.steer\<close>.\<close>

definition Driver_steer :: "driver \<Rightarrow> (unit, driver) res" where
  "Driver_steer self =
     need (floats (state self) TrackPos) self (\<lambda>trackPos.
     need (floats (state self) Angle) self (\<lambda>angle.
       let steer_cmd = (angle - trackPos * 0.5) / steer_lock
       in Ok () (self\<lparr>control := (control self)\<lparr>steer := steer_cmd\<rparr>\<rparr>)))"

text \<open>
  \<open>Driver.gear\<close>. \<open>and\<close> evaluates its right operand only when the left one holds, so
  the gear is compared only then.
\<close>

definition Driver_gear :: "driver \<Rightarrow> (unit, driver) res" where
  "Driver_gear self =
     (let rpm = getRpm (state self); gear = getGear (state self)
      in need rpm self (\<lambda>rpm.
           if rpm > UPSHIFT_RPM then
             need gear self (\<lambda>g.
               if g < MAX_GEAR then Ok () (self\<lparr>control := (control self)\<lparr>gear := Some (g + 1)\<rparr>\<rparr>)
               else if rpm < DOWNSHIFT_RPM then
                 (if g > MIN_GEAR then Ok () (self\<lparr>control := (control self)\<lparr>gear := Some (g - 1)\<rparr>\<rparr>)
                  else Ok () (self\<lparr>control := (control self)\<lparr>gear := Some g\<rparr>\<rparr>))
               else Ok () (self\<lparr>control := (control self)\<lparr>gear := Some g\<rparr>\<rparr>))
           else if rpm < DOWNSHIFT_RPM then
             need gear self (\<lambda>g.
               if g > MIN_GEAR then Ok () (self\<lparr>control := (control self)\<lparr>gear := Some (g - 1)\<rparr>\<rparr>)
               else Ok () (self\<lparr>control := (control self)\<lparr>gear := Some g\<rparr>\<rparr>))
           else Ok () (self\<lparr>control := (control self)\<lparr>gear := gear\<rparr>\<rparr>)))"

text \<open>\<open>min\<close> of a non-empty list of numbers.\<close>

fun min_list_real :: "real \<Rightarrow> real list \<Rightarrow> real" where
  "min_list_real m [] = m"
| "min_list_real m (x # xs) = min_list_real (min m x) xs"

text \<open>
  \<open>Driver.speed\<close>. The arithmetic is exact here; the code computes in double
  precision, so repeated steps of 0.3 and 0.2 on accel can differ from the model in the
  last digits and, at a comparison with the target, take the other branch.
\<close>

definition Driver_speed :: "driver \<Rightarrow> (unit, driver) res" where
  "Driver_speed self =
     (let speed = getSpeedX (state self);
          accel = accel (control self);
          steer = steer (control self);
          track_pos = floats (state self) TrackPos;
          track_sensors = getTrack (state self)
      in need track_pos self (\<lambda>track_pos.
         let turn_sharpness = (\<bar>steer\<bar> + \<bar>track_pos\<bar> * 0.3) * CURVATURE_SENSITIVITY;
             ahead = (case track_sensors of
                        None \<Rightarrow> None
                      | Some ts \<Rightarrow>
                          if ts \<noteq> [] \<and> length ts \<ge> LOOK_AHEAD_DISTANCE
                          then Some (take LOOK_AHEAD_DISTANCE ts) else None);
             min_track_ahead = (case ahead of
                                  Some (a # as) \<Rightarrow> Some (min_list_real a as)
                                | _ \<Rightarrow> None);
             narrowing = (case min_track_ahead of
                            Some m \<Rightarrow> if m < CURVE_DETECTION_THRESHOLD then Some m else None
                          | None \<Rightarrow> None);
             upcoming_curve_factor =
               (case narrowing of
                  Some m \<Rightarrow> max (m / CURVE_DETECTION_THRESHOLD) SPEED_REDUCTION_FACTOR
                | None \<Rightarrow> 1);
             turn_sharpness =
               (case narrowing of
                  Some m \<Rightarrow> turn_sharpness + (1 - m / CURVE_DETECTION_THRESHOLD) * 0.3
                | None \<Rightarrow> turn_sharpness)
         in need speed self (\<lambda>speed.
            let target_accel = (if speed < max_speed then 1.0 * upcoming_curve_factor else 0);
                target_accel =
                  (if turn_sharpness > MIN_TURN_THRESHOLD
                   then max (target_accel * (1 - min turn_sharpness 0.6)) 0.4
                   else target_accel);
                accel = (if accel < target_accel then accel + 0.3
                         else if accel > target_accel then accel - 0.2
                         else accel);
                accel = max 0 (min 1 accel)
            in Ok () (self\<lparr>control := (control self)\<lparr>accel := accel\<rparr>\<rparr>))))"

text \<open>\<open>setFromMsg\<close> on the driver's state.\<close>

definition state_setFromMsg ::
  "builtins \<Rightarrow> string \<Rightarrow> 'a driver_scheme \<Rightarrow> (unit, 'a driver_scheme) res" where
  "state_setFromMsg B msg self =
     (case setFromMsg B msg (state self) of
        Exn e s \<Rightarrow> Exn e (self\<lparr>state := s\<rparr>)
      | Ok _ s \<Rightarrow> Ok () (self\<lparr>state := s\<rparr>))"

text \<open>\<open>return self.control.toMsg()\<close>.\<close>

definition control_toMsg :: "builtins \<Rightarrow> 'a driver_scheme \<Rightarrow> (string, 'a driver_scheme) res" where
  "control_toMsg B self =
     (case toMsg B (control self) of Inl e \<Rightarrow> Exn e self | Inr msg \<Rightarrow> Ok msg self)"

text \<open>\<open>Driver.drive\<close>.\<close>

definition Driver_drive :: "builtins \<Rightarrow> string \<Rightarrow> driver \<Rightarrow> (string, driver) res" where
  "Driver_drive B msg self =
     (case seq [state_setFromMsg B msg, Driver_steer, Driver_gear, Driver_speed] self of
        Exn e self' \<Rightarrow> Exn e self'
      | Ok _ self' \<Rightarrow> control_toMsg B self')"

section \<open>new\_main/pyclient.py: the racing loop\<close>

text \<open>
  The driver the client runs is chosen by \<open>--mode\<close>: the loop sees its three methods.
\<close>

record 'd policy =
  drive :: "string \<Rightarrow> 'd \<Rightarrow> (string, 'd) res"
  onShutDown :: "'d \<Rightarrow> 'd"
  onRestart :: "'d \<Rightarrow> 'd"

definition rule_policy :: "builtins \<Rightarrow> driver policy" where
  "rule_policy B = \<lparr>drive = Driver_drive B, onShutDown = (\<lambda>d. d), onRestart = (\<lambda>d. d)\<rparr>"

text \<open>
  The loop's variables: the driver \<open>d\<close> (here \<open>drv\<close>), \<open>currentStep\<close>,
  \<open>consecutive_timeouts\<close> and \<open>shutdownClient\<close>.
\<close>

record 'd session =
  drv :: 'd
  currentStep :: int
  consecutive_timeouts :: int
  shutdownClient :: bool

text \<open>\<open>sub in s\<close> on strings.\<close>

fun starts_with :: "string \<Rightarrow> string \<Rightarrow> bool" where
  "starts_with s [] = True"
| "starts_with [] (c # cs) = False"
| "starts_with (x # xs) (c # cs) = (x = c \<and> starts_with xs cs)"

fun contains :: "string \<Rightarrow> string \<Rightarrow> bool" where
  "contains [] sub = (sub = [])"
| "contains (x # xs) sub = (starts_with (x # xs) sub \<or> contains xs sub)"

text \<open>
  What the loop hands to \<open>sock.sendto\<close>: the driver's answer, or the literal of line
  203.
\<close>

datatype sent = Control string | Abandon

fun wire :: "sent \<Rightarrow> string" where
  "wire (Control msg) = msg"
| "wire Abandon = ''(meta 1)''"

text \<open>
  One pass through the body of the inner \<open>while True\<close>: the loop goes on (with what was
  sent, if anything), leaves by \<open>break\<close>, ends the process by \<open>sys.exit(-1)\<close>, or ends
  it by an exception that nothing catches.
\<close>

datatype 'd tick = Next "sent option" "'d session" | Break "'d session" | SysExit | Uncaught error

text \<open>Lines 208 to 213: \<open>if buf:\<close> send it; a failed send ends the process.\<close>

definition send :: "bool \<Rightarrow> sent \<Rightarrow> 'd session \<Rightarrow> 'd tick" where
  "send send_ok buf st =
     (if wire buf \<noteq> [] then (if send_ok then Next (Some buf) st else SysExit)
      else Next None st)"

text \<open>
  Lines 135 to 213. \<open>recv\<close> is what \<open>sock.recvfrom\<close> gave (\<open>None\<close>: it raised
  \<open>socket.error\<close>), \<open>send_ok\<close> whether \<open>sock.sendto\<close> will succeed. The CSV row
  written after \<open>d.drive\<close> is output only and is left out.
\<close>

definition racing_tick ::
  "'d policy \<Rightarrow> int \<Rightarrow> string option \<Rightarrow> bool \<Rightarrow> 'd session \<Rightarrow> 'd tick" where
  "racing_tick P max_steps recv send_ok st =
     (case recv of
        None \<Rightarrow> Next None (st\<lparr>consecutive_timeouts := consecutive_timeouts st + 1\<rparr>)
      | Some buf \<Rightarrow>
          (let st = st\<lparr>consecutive_timeouts := 0\<rparr>
           in if buf \<noteq> [] \<and> contains buf ''***shutdown***''
              then Break (st\<lparr>drv := onShutDown P (drv st), shutdownClient := True\<rparr>)
              else if buf \<noteq> [] \<and> contains buf ''***restart***''
              then Break (st\<lparr>drv := onRestart P (drv st)\<rparr>)
              else
                (let st = st\<lparr>currentStep := currentStep st + 1\<rparr>
                 in if currentStep st \<noteq> max_steps
                    then (if buf \<noteq> []
                          then (case drive P buf (drv st) of
                                  Exn e d' \<Rightarrow> Uncaught e
                                | Ok out d' \<Rightarrow> send send_ok (Control out) (st\<lparr>drv := d'\<rparr>))
                          else Next None st)
                    else send send_ok Abandon st)))"

text \<open>
  The inner loop over what the network does, pass by pass: everything sent, and how the
  loop stood when the list ended.
\<close>

datatype 'd loop_end = Running "'d session" | Left "'d session" | Exited | Crashed error

fun racing_loop ::
  "'d policy \<Rightarrow> int \<Rightarrow> (string option \<times> bool) list \<Rightarrow> 'd session \<Rightarrow> sent list \<times> 'd loop_end" where
  "racing_loop P max_steps [] st = ([], Running st)"
| "racing_loop P max_steps ((recv, send_ok) # evs) st =
     (case racing_tick P max_steps recv send_ok st of
        Next out st' \<Rightarrow>
          (let (outs, fin) = racing_loop P max_steps evs st'
           in ((case out of None \<Rightarrow> [] | Some m \<Rightarrow> [m]) @ outs, fin))
      | Break st' \<Rightarrow> ([], Left st')
      | SysExit \<Rightarrow> ([], Exited)
      | Uncaught e \<Rightarrow> ([], Crashed e))"

text \<open>Lines 110 and 111: the counters at the start of an episode.\<close>

definition episode_start :: "'d session \<Rightarrow> 'd session" where
  "episode_start st = st\<lparr>currentStep := 0, consecutive_timeouts := 0\<rparr>"

section \<open>new\_main/learning\_driver.py: the learning driver\<close>

text \<open>The tables \<open>upshift_rpm\<close> and \<open>downshift_rpm\<close>, dictionaries keyed by the gear.\<close>

definition upshift_rpm :: "int \<Rightarrow> real option" where
  "upshift_rpm = map_of [(1, 7000), (2, 7000), (3, 7000), (4, 7500), (5, 7500), (6, 7500)]"

definition downshift_rpm :: "int \<Rightarrow> real option" where
  "downshift_rpm = map_of [(2, 2000), (3, 2500), (4, 3000), (5, 3500), (6, 4000)]"

text \<open>
  Lines 309 to 312, the upshift, and lines 315 to 321, the downshift, of \<open>_auto_shift\<close>.
  \<open>current_gear\<close>, \<open>current_rpm\<close> and \<open>current_speed\<close> were read at the start of the
  method; \<open>self.control.gear += 1\<close> reads the control again.
\<close>

definition upshift_step ::
  "int option \<Rightarrow> real option \<Rightarrow> real option \<Rightarrow> 'a driver_scheme \<Rightarrow> (unit, 'a driver_scheme) res" where
  "upshift_step current_gear current_rpm current_speed self =
     (case current_gear of
        None \<Rightarrow> Ok () self
      | Some g \<Rightarrow>
          (case upshift_rpm g of
             None \<Rightarrow> Ok () self
           | Some threshold \<Rightarrow>
               if g < 6 then
                 need current_rpm self (\<lambda>rpm.
                   if rpm > threshold then
                     need current_speed self (\<lambda>speed.
                       if speed > 0 then
                         need (gear (control self)) self (\<lambda>cg.
                           Ok () (self\<lparr>control := (control self)\<lparr>gear := Some (cg + 1)\<rparr>\<rparr>))
                       else Ok () self)
                   else Ok () self)
               else Ok () self))"

definition downshift_step ::
  "int option \<Rightarrow> real option \<Rightarrow> 'a driver_scheme \<Rightarrow> (unit, 'a driver_scheme) res" where
  "downshift_step current_gear current_rpm self =
     (case current_gear of
        None \<Rightarrow> Ok () self
      | Some g \<Rightarrow>
          (case downshift_rpm g of
             None \<Rightarrow> Ok () self
           | Some threshold \<Rightarrow>
               if g > 1 then
                 need current_rpm self (\<lambda>rpm.
                   if rpm < threshold then
                     (let self = (if accel (control self) > 0
                                  then self\<lparr>control := (control self)
                                         \<lparr>accel := max (accel (control self) - 0.2) 0\<rparr>\<rparr>
                                  else self)
                      in need (gear (control self)) self (\<lambda>cg.
                           Ok () (self\<lparr>control := (control self)\<lparr>gear := Some (cg - 1)\<rparr>\<rparr>)))
                   else Ok () self)
               else Ok () self))"

text \<open>The body of the \<open>try\<close> of \<open>_auto_shift\<close>.\<close>

definition auto_shift_try :: "'a driver_scheme \<Rightarrow> (unit, 'a driver_scheme) res" where
  "auto_shift_try self =
     (let current_gear = gear (control self);
          current_rpm = getRpm (state self);
          current_speed = getSpeedX (state self)
      in if current_gear = Some (- 1) then
           need current_speed self (\<lambda>speed.
             if speed > 0.1 then Ok () (self\<lparr>control := (control self)\<lparr>gear := Some 1\<rparr>\<rparr>)
             else Ok () self)
         else
           (case upshift_step current_gear current_rpm current_speed self of
              Exn e self' \<Rightarrow> Exn e self'
            | Ok _ self' \<Rightarrow> downshift_step current_gear current_rpm self'))"

text \<open>
  \<open>LearningDriver._auto_shift\<close>: \<open>except Exception\<close> logs the exception and the method
  returns, with the assignments made before it.
\<close>

definition auto_shift :: "'a driver_scheme \<Rightarrow> 'a driver_scheme" where
  "auto_shift self = state_of (auto_shift_try self)"

text \<open>
  The learning driver: state and control, the three lists of \<open>self.history\<close> and
  \<open>self._prev_rpm\<close>.
\<close>

record learning_driver = driver +
  history_SpeedX :: "real option list"
  history_SpeedY :: "real option list"
  history_Angle :: "real option list"
  prev_rpm :: real

definition window_size :: nat where "window_size = 5"

text \<open>\<open>LearningDriver.__init__\<close>, without the files it opens.\<close>

definition LearningDriver_init :: learning_driver where
  "LearningDriver_init =
     \<lparr>state = CarState_init, control = CarControl_init, history_SpeedX = [],
      history_SpeedY = [], history_Angle = [], prev_rpm = 0\<rparr>"

text \<open>One list of \<open>_update_history\<close>: \<open>append\<close>, then \<open>pop(0)\<close> when it is too long.\<close>

definition push :: "real option \<Rightarrow> real option list \<Rightarrow> real option list" where
  "push v h = (let h = h @ [v] in if length h > window_size then tl h else h)"

definition update_history :: "learning_driver \<Rightarrow> learning_driver" where
  "update_history self =
     self\<lparr>history_SpeedX := push (getSpeedX (state self)) (history_SpeedX self),
          history_SpeedY := push (getSpeedY (state self)) (history_SpeedY self),
          history_Angle := push (getAngle (state self)) (history_Angle self)\<rparr>"

text \<open>\<open>np.mean(h) if h else 0\<close>; a \<open>None\<close> in the list raises \<open>TypeError\<close>.\<close>

fun known :: "real option list \<Rightarrow> real list option" where
  "known [] = Some []"
| "known (None # vs) = None"
| "known (Some v # vs) = map_option ((#) v) (known vs)"

definition moving_average :: "real option list \<Rightarrow> 's \<Rightarrow> (real \<Rightarrow> ('b, 's) res) \<Rightarrow> ('b, 's) res" where
  "moving_average h s k =
     (if h = [] then k 0
      else need (known h) s (\<lambda>vs. k (sum_list vs / real (length vs))))"

text \<open>
  The \<open>try\<close> of \<open>_prepare_features\<close>, up to the dictionary \<open>features\<close>: its fifteen
  values, in the order of the dictionary.
\<close>

definition features_try :: "learning_driver \<Rightarrow> (real list, learning_driver) res" where
  "features_try self =
     need (getSpeedX (state self)) self (\<lambda>speedX.
     need (getSpeedY (state self)) self (\<lambda>speedY.
     need (getSpeedZ (state self)) self (\<lambda>speedZ.
       let speed_magnitude = sqrt (speedX\<^sup>2 + speedY\<^sup>2 + speedZ\<^sup>2);
           angle = getAngle (state self);
           rpm = getRpm (state self);
           track_pos = getTrackPos (state self)
       in need (if history_Angle self = [] then Some 0
                else (case (angle, last (history_Angle self)) of
                        (Some a, Some l) \<Rightarrow> Some (a - l)
                      | _ \<Rightarrow> None)) self (\<lambda>angle_change.
          need rpm self (\<lambda>rpm.
            let rpm_change = rpm - prev_rpm self;
                self = self\<lparr>prev_rpm := rpm\<rparr>
            in moving_average (history_SpeedX self) self (\<lambda>speedX_MA.
               moving_average (history_SpeedY self) self (\<lambda>speedY_MA.
               moving_average (history_Angle self) self (\<lambda>angle_MA.
               need angle self (\<lambda>angle.
               need track_pos self (\<lambda>track_pos.
                 Ok [speed_magnitude, speedX, speedY, speedZ, \<bar>track_pos\<bar>, angle, angle_change,
                     rpm, rpm_change, track_pos, speed_magnitude * angle,
                     speed_magnitude * track_pos, speedX_MA, speedY_MA, angle_MA] self))))))))))"

text \<open>
  \<open>_prepare_features\<close>: on an exception the frame is empty (\<open>None\<close>); the assignment to
  \<open>_prev_rpm\<close> stays if it was reached.
\<close>

definition prepare_features :: "learning_driver \<Rightarrow> real list option \<times> learning_driver" where
  "prepare_features self =
     (case features_try self of
        Ok features self' \<Rightarrow> (Some features, self')
      | Exn e self' \<Rightarrow> (None, self'))"

text \<open>\<open>np.clip\<close> and \<open>_apply_safety_constraints\<close>.\<close>

definition clip :: "real \<Rightarrow> real \<Rightarrow> real \<Rightarrow> real" where
  "clip x lo hi = min hi (max lo x)"

definition apply_safety_constraints :: "real \<times> real \<times> real \<Rightarrow> real \<times> real \<times> real" where
  "apply_safety_constraints predictions =
     (case predictions of (p_steer, p_accel, p_brake) \<Rightarrow>
        (let p_steer = clip p_steer (- 1) 1;
             p_accel = clip p_accel 0 1;
             p_brake = clip p_brake 0 1
         in (p_steer, if p_brake > 0.1 then 0 else p_accel, p_brake)))"

text \<open>\<open>setSteer\<close>, \<open>setAccel\<close>, \<open>setBrake\<close> in a row.\<close>

definition set_controls :: "real \<Rightarrow> real \<Rightarrow> real \<Rightarrow> 'a driver_scheme \<Rightarrow> 'a driver_scheme" where
  "set_controls s a b self = self\<lparr>control := (control self)\<lparr>steer := s, accel := a, brake := b\<rparr>\<rparr>"

text \<open>
  The \<open>try\<close> of \<open>LearningDriver.drive\<close>. The fitted models and the scaler are files
  outside the repository: \<open>predict name features\<close> is \<open>float(model.predict(...)[0])\<close> of
  the model \<open>name\<close> on the scaled frame, \<open>None\<close> when that raises.
\<close>

definition drive_try ::
  "builtins \<Rightarrow> (string \<Rightarrow> real list option \<Rightarrow> real option) \<Rightarrow> string \<Rightarrow> learning_driver \<Rightarrow>
   (string, learning_driver) res" where
  "drive_try B predict msg self =
     (case state_setFromMsg B msg self of
        Exn e self \<Rightarrow> Exn e self
      | Ok _ self \<Rightarrow>
          (let self = update_history self
           in if \<not> (length (history_SpeedX self) = window_size \<and>
                     length (history_SpeedY self) = window_size \<and>
                     length (history_Angle self) = window_size)
              then control_toMsg B (auto_shift (set_controls 0 0 0 self))
              else
                (let (features, self) = prepare_features self;
                     guess = (\<lambda>name. case predict name features of None \<Rightarrow> 0 | Some p \<Rightarrow> p);
                     (p_steer, p_accel, p_brake) =
                       apply_safety_constraints (guess ''steer'', guess ''accel'', guess ''brake'')
                 in control_toMsg B (auto_shift (set_controls p_steer p_accel p_brake self)))))"

text \<open>\<open>LearningDriver.drive\<close>, with its \<open>except Exception\<close>.\<close>

definition LearningDriver_drive ::
  "builtins \<Rightarrow> (string \<Rightarrow> real list option \<Rightarrow> real option) \<Rightarrow> string \<Rightarrow> learning_driver \<Rightarrow>
   (string, learning_driver) res" where
  "LearningDriver_drive B predict msg self =
     (case drive_try B predict msg self of
        Ok out self' \<Rightarrow> Ok out self'
      | Exn e self' \<Rightarrow> control_toMsg B (set_controls 0 0 0 self'))"

text \<open>\<open>LearningDriver.onRestart\<close>: the three lists of \<open>self.history\<close> are emptied.\<close>

definition LearningDriver_onRestart :: "learning_driver \<Rightarrow> learning_driver" where
  "LearningDriver_onRestart self =
     self\<lparr>history_SpeedX := [], history_SpeedY := [], history_Angle := []\<rparr>"

definition learning_policy ::
  "builtins \<Rightarrow> (string \<Rightarrow> real list option \<Rightarrow> real option) \<Rightarrow> learning_driver policy" where
  "learning_policy B predict =
     \<lparr>drive = LearningDriver_drive B predict, onShutDown = (\<lambda>d. d),
      onRestart = LearningDriver_onRestart\<rparr>"

subsection \<open>When the per-gear thresholds ask for a shift\<close>

text \<open>
  The conditions of lines 309 and 310, and of lines 315 and 316, of \<open>_auto_shift\<close>, for
  a gear, an RPM and a speed that are known.
\<close>

definition upshift_due :: "int \<Rightarrow> real \<Rightarrow> real \<Rightarrow> bool" where
  "upshift_due g rpm speed =
     (case upshift_rpm g of None \<Rightarrow> False | Some threshold \<Rightarrow> g < 6 \<and> rpm > threshold \<and> speed > 0)"

definition downshift_due :: "int \<Rightarrow> real \<Rightarrow> bool" where
  "downshift_due g rpm =
     (case downshift_rpm g of None \<Rightarrow> False | Some threshold \<Rightarrow> g > 1 \<and> rpm < threshold)"


section \<open>Aiproject-main/model\_driver.py: the recovery state machine\<close>

text \<open>
  \<open>ModelDriver\<close> extends the class \<open>Driver\<close> of \<open>driver.py\<close>, which is not among the
  sources. The base class contributes the state, the control and attributes of its own
  (\<open>base\<close>); \<open>ModelDriver.__init__\<close> adds the flags and timestamps of the recovery
  machine. Timestamps are readings of \<open>time.time()\<close>, modelled as reals.
\<close>

record 'b model_driver = driver +
  base :: 'b
  use_model :: bool
  in_recovery :: bool
  recovery_start_time :: "real option"
  in_post_recovery :: bool
  post_recovery_start_time :: "real option"
  last_recovery_time :: real
  session_start_time :: real
  prev_steer :: real

text \<open>
  \<open>ModelDriver.__init__\<close>, after the base class has set up state, control and its own
  attributes; \<open>now\<close> is the reading of the clock.
\<close>

definition ModelDriver_init :: "'b \<Rightarrow> real \<Rightarrow> 'b model_driver" where
  "ModelDriver_init b now =
     \<lparr>state = CarState_init, control = CarControl_init, base = b, use_model = False,
      in_recovery = False, recovery_start_time = None, in_post_recovery = False,
      post_recovery_start_time = None, last_recovery_time = 0, session_start_time = now,
      prev_steer = 0\<rparr>"

text \<open>
  \<open>super().drive(msg)\<close>: the base class's \<open>drive\<close> is a parameter. It sees the state, the
  control and the base class's attributes, and may raise.
\<close>

type_synonym 'b super_drive = "string \<Rightarrow> 'b \<times> driver \<Rightarrow> (string, 'b \<times> driver) res"

definition put_base :: "'b \<times> driver \<Rightarrow> 'b model_driver \<Rightarrow> 'b model_driver" where
  "put_base bd self = self\<lparr>base := fst bd, state := state (snd bd), control := control (snd bd)\<rparr>"

definition call_super :: "'b super_drive \<Rightarrow> string \<Rightarrow> 'b model_driver \<Rightarrow> (string, 'b model_driver) res" where
  "call_super super_drive msg self =
     (case super_drive msg (base self, \<lparr>state = state self, control = control self\<rparr>) of
        Exn e bd \<Rightarrow> Exn e (put_base bd self)
      | Ok out bd \<Rightarrow> Ok out (put_base bd self))"

text \<open>
  \<open>_get_model_prediction\<close> reads the state and asks the fitted model, a file outside the
  repository: a parameter. \<open>Inr None\<close> is its \<open>return None\<close>, \<open>Inl\<close> an exception of the
  model. Lines 110 to 117 apply it.
\<close>

type_synonym prediction = "car_state \<Rightarrow> error + (real \<times> real \<times> real) option"

definition normal_model_control ::
  "prediction \<Rightarrow> builtins \<Rightarrow> 'b model_driver \<Rightarrow> (string, 'b model_driver) res" where
  "normal_model_control get_model_prediction B self =
     (case get_model_prediction (state self) of
        Inl e \<Rightarrow> Exn e self
      | Inr None \<Rightarrow> control_toMsg B self
      | Inr (Some (p_steer, p_accel, p_brake)) \<Rightarrow>
          control_toMsg B
            (self\<lparr>control := (control self)\<lparr>steer := p_steer, accel := p_accel, brake := p_brake\<rparr>\<rparr>))"

text \<open>
  Lines 66 to 73, the post-recovery forward phase: \<open>Inl\<close> is the \<open>return\<close> (or the
  exception of a subtraction from \<open>None\<close>), \<open>Inr\<close> the driver with which \<open>drive\<close> goes on.
\<close>

definition post_recovery_phase ::
  "real \<Rightarrow> builtins \<Rightarrow> 'b model_driver \<Rightarrow> (string, 'b model_driver) res + 'b model_driver" where
  "post_recovery_phase current_time B self =
     (if in_post_recovery self then
        (case post_recovery_start_time self of
           None \<Rightarrow> Inl (Exn TypeError self)
         | Some started \<Rightarrow>
             if current_time - started < 4.0 then
               Inl (control_toMsg B
                 (self\<lparr>control := (control self)\<lparr>gear := Some 1, accel := 0.5, brake := 0.0\<rparr>\<rparr>))
             else Inr (self\<lparr>in_post_recovery := False\<rparr>))
      else Inr self)"

text \<open>Lines 77 to 101, run when \<open>in_recovery\<close> holds: the exit and the reverse phase.\<close>

definition recovery_phase ::
  "real \<Rightarrow> real option \<Rightarrow> builtins \<Rightarrow> 'b model_driver \<Rightarrow> (string, 'b model_driver) res" where
  "recovery_phase current_time angle B self =
     (case recovery_start_time self of
        None \<Rightarrow> Exn TypeError self
      | Some started \<Rightarrow>
          if current_time - started > 3.0 then
            control_toMsg B
              (self\<lparr>in_recovery := False, last_recovery_time := current_time,
                    in_post_recovery := True, post_recovery_start_time := Some current_time,
                    control := (control self)\<lparr>gear := Some 1, accel := 0.1, brake := 0.0,
                                              steer := 0.0\<rparr>\<rparr>)
          else
            (let self = self\<lparr>control := (control self)\<lparr>gear := Some (- 1), accel := 0.3,
                                                        brake := 0.0\<rparr>\<rparr>
             in need angle self (\<lambda>angle.
                  control_toMsg B
                    (self\<lparr>control := (control self)\<lparr>steer :=
                       (if angle > 0.5 then - 0.5 else if angle < - 0.5 then 0.5 else 0.0)\<rparr>\<rparr>))))"

text \<open>
  The condition of line 104. \<open>and\<close> compares the speed only when the session is older
  than 5 seconds; a speed of \<open>None\<close> raises \<open>TypeError\<close> there.
\<close>

definition stuck :: "real \<Rightarrow> real option \<Rightarrow> 'b model_driver \<Rightarrow> error + bool" where
  "stuck current_time speed self =
     (if current_time - session_start_time self > 5 then
        (case speed of
           None \<Rightarrow> Inl TypeError
         | Some v \<Rightarrow> Inr (v < 0.3 \<and> current_time - last_recovery_time self > 5))
      else Inr False)"

text \<open>
  The body of \<open>ModelDriver.drive\<close> up to its \<open>return\<close>s; \<open>Inr\<close> is the
  \<open>return self.drive(msg)\<close> of line 107, with the driver as it then is.
\<close>

definition drive_body ::
  "'b super_drive \<Rightarrow> prediction \<Rightarrow> real \<Rightarrow> builtins \<Rightarrow> string \<Rightarrow> 'b model_driver \<Rightarrow>
   (string, 'b model_driver) res + 'b model_driver" where
  "drive_body super_drive get_model_prediction current_time B msg self =
     (case call_super super_drive msg self of
        Exn e self \<Rightarrow> Inl (Exn e self)
      | Ok _ self \<Rightarrow>
          if use_model self then
            (let speed = getSpeedX (state self);
                 angle = floats (state self) Angle
             in case post_recovery_phase current_time B self of
                  Inl r \<Rightarrow> Inl r
                | Inr self \<Rightarrow>
                    if in_recovery self then Inl (recovery_phase current_time angle B self)
                    else
                      (case stuck current_time speed self of
                         Inl e \<Rightarrow> Inl (Exn e self)
                       | Inr True \<Rightarrow>
                           Inr (self\<lparr>in_recovery := True,
                                     recovery_start_time := Some current_time\<rparr>)
                       | Inr False \<Rightarrow> Inl (normal_model_control get_model_prediction B self)))
          else Inl (control_toMsg B self))"

lemma call_super_in_recovery:
  "in_recovery (state_of (call_super super_drive msg self)) = in_recovery self"
  by (simp add: call_super_def put_base_def split: res.splits)

lemma drive_body_again:
  assumes "drive_body super_drive get_model_prediction current_time B msg self = Inr self'"
  shows "\<not> in_recovery self \<and> in_recovery self'"
proof -
  from assms obtain out self1 where s1: "call_super super_drive msg self = Ok out self1"
    by (auto simp: drive_body_def split: res.splits)
  with call_super_in_recovery [of super_drive msg self]
  have "in_recovery self1 = in_recovery self" by simp
  with assms s1 show ?thesis
    by (auto simp: drive_body_def post_recovery_phase_def Let_def
        split: if_splits sum.splits option.splits bool.splits)
qed

text \<open>
  \<open>ModelDriver.drive\<close>. Each invocation reads the clock once: \<open>clock k\<close> is the reading
  of the invocation at depth \<open>k\<close>.
\<close>

function ModelDriver_drive ::
  "'b super_drive \<Rightarrow> prediction \<Rightarrow> (nat \<Rightarrow> real) \<Rightarrow> nat \<Rightarrow> builtins \<Rightarrow> string \<Rightarrow>
   'b model_driver \<Rightarrow> (string, 'b model_driver) res" where
  "ModelDriver_drive super_drive get_model_prediction clock k B msg self =
     (case drive_body super_drive get_model_prediction (clock k) B msg self of
        Inl r \<Rightarrow> r
      | Inr self' \<Rightarrow> ModelDriver_drive super_drive get_model_prediction clock (Suc k) B msg self')"
  by pat_completeness auto
termination
proof (relation "measure (\<lambda>(sd, p, c, k, B, msg, self). if in_recovery self then 0 else 1)",
    goal_cases)
  case 1
  show ?case by simp
next
  case (2 super_drive get_model_prediction clock k B msg self self')
  from drive_body_again [OF 2] show ?case by simp
qed

declare ModelDriver_drive.simps [simp del]
section \<open>Properties of the wire codec\<close>

subsection \<open>Searching and slicing\<close>

lemma index_of_None: "(index_of c xs = None) = (c \<notin> set xs)"
  by (induction xs) auto

lemma index_of_least: "index_of c xs = Some i \<Longrightarrow> k < i \<Longrightarrow> xs ! k \<noteq> c"
  by (induction xs arbitrary: i k) (auto split: if_splits nat.splits simp: nth_Cons)

lemma index_of_append:
  "index_of c (xs @ ys) =
     (case index_of c xs of Some i \<Rightarrow> Some i
      | None \<Rightarrow> map_option (\<lambda>i. length xs + i) (index_of c ys))"
proof (induction xs)
  case Nil
  show ?case by (cases "index_of c ys") auto
next
  case (Cons x xs)
  then show ?case by (cases "index_of c ys") (auto split: option.splits)
qed

lemma find_None: "(find s c start = None) = (c \<notin> set (drop start s))"
  by (simp add: find_def index_of_None)

lemma find_least:
  assumes "find s c start = Some i" "start \<le> k" "k < i"
  shows "s ! k \<noteq> c"
proof -
  from assms(1) obtain j where j: "index_of c (drop start s) = Some j" "i = start + j"
    by (auto simp: find_def)
  from assms j have "k - start < j" by auto
  with j(1) have "drop start s ! (k - start) \<noteq> c" by (rule index_of_least)
  moreover from j(1) have "j < length (drop start s)" by (auto dest: index_of_Some)
  ultimately show ?thesis using assms j by simp
qed

lemma find_append_right:
  "find (pre @ s) c (length pre + b) = map_option (\<lambda>i. length pre + i) (find s c b)"
  by (simp add: find_def option.map_comp comp_def add.assoc)

lemma find_append_left:
  "b \<le> length pre \<Longrightarrow>
   find (pre @ rest) c b =
     (case find pre c b of Some i \<Rightarrow> Some i
      | None \<Rightarrow> map_option (\<lambda>i. length pre + i) (find rest c 0))"
  by (auto simp: find_def index_of_append option.map_comp comp_def split: option.splits)

lemma slice_append_right: "slice (pre @ s) (length pre + i) (length pre + j) = slice s i j"
  by (simp add: slice_def)

lemma slice_append_left: "j \<le> length pre \<Longrightarrow> slice (pre @ rest) i j = slice pre i j"
  by (simp add: slice_def)

subsection \<open>The parse loop on a text that is extended\<close>

lemma parse_loop_append_right:
  "parse_loop (pre @ s) (length pre + b) acc = parse_loop s b acc"
proof (induction s b acc rule: parse_loop.induct)
  case (1 s b acc)
  show ?case
  proof (cases "find s (CHR '')'') b")
    case None
    then show ?thesis
      by (simp add: parse_loop.simps [of "pre @ s" "length pre + b" acc] parse_loop.simps [of s b acc] find_append_right)
  next
    case (Some c)
    have sl: "slice (pre @ s) (length pre + b + 1) (length pre + c) = slice s (b + 1) c"
      using slice_append_right [of pre s "b + 1" c] by (simp add: add.assoc)
    show ?thesis
    proof (cases "find s (CHR ''('') c")
      case None
      with Some sl show ?thesis
        by (simp add: parse_loop.simps [of "pre @ s" "length pre + b" acc] parse_loop.simps [of s b acc] find_append_right Let_def)
    next
      case (Some b')
      note IH = "1.IH" [OF \<open>find s (CHR '')'') b = Some c\<close> refl refl refl Some]
      from Some \<open>find s (CHR '')'') b = Some c\<close> sl IH show ?thesis
        by (simp cong: if_cong add: parse_loop.simps [of "pre @ s" "length pre + b" acc] parse_loop.simps [of s b acc] find_append_right Let_def)
    qed
  qed
qed

lemma parse_parse_from: "parse s = parse_from s []"
  by (simp add: parse_def parse_from_def)

lemma unterminated_iff:
  "unterminated s = (\<exists>i<length s. s ! i = CHR ''('' \<and> CHR '')'' \<notin> set (drop i s))"
proof (induction s)
  case Nil
  show ?case by simp
next
  case (Cons c cs)
  show ?case
  proof
    assume "unterminated (c # cs)"
    then consider "c = CHR ''(''" "CHR '')'' \<notin> set cs" | "unterminated cs" by auto
    then show "\<exists>i<length (c # cs). (c # cs) ! i = CHR ''('' \<and> CHR '')'' \<notin> set (drop i (c # cs))"
    proof cases
      case 1
      then have "(c # cs) ! 0 = CHR ''('' \<and> CHR '')'' \<notin> set (drop 0 (c # cs))" by simp
      then show ?thesis by blast
    next
      case 2
      with Cons obtain i where "i < length cs" "cs ! i = CHR ''(''" "CHR '')'' \<notin> set (drop i cs)"
        by auto
      then have "Suc i < length (c # cs) \<and> (c # cs) ! Suc i = CHR ''('' \<and>
        CHR '')'' \<notin> set (drop (Suc i) (c # cs))" by simp
      then show ?thesis by blast
    qed
  next
    assume "\<exists>i<length (c # cs). (c # cs) ! i = CHR ''('' \<and> CHR '')'' \<notin> set (drop i (c # cs))"
    then obtain i where i: "i < length (c # cs)" "(c # cs) ! i = CHR ''(''"
      "CHR '')'' \<notin> set (drop i (c # cs))" by blast
    show "unterminated (c # cs)"
    proof (cases i)
      case 0
      with i show ?thesis by simp
    next
      case (Suc j)
      with i have "j < length cs \<and> cs ! j = CHR ''('' \<and> CHR '')'' \<notin> set (drop j cs)" by simp
      with Cons have "unterminated cs" by blast
      then show ?thesis by simp
    qed
  qed
qed

lemma nth_in_drop: "i < length s \<Longrightarrow> k \<le> i \<Longrightarrow> s ! i \<in> set (drop k s)"
proof -
  assume a: "i < length s" "k \<le> i"
  then have "drop k s ! (i - k) = s ! i" by simp
  moreover from a have "i - k < length (drop k s)" by simp
  ultimately show ?thesis by (metis nth_mem)
qed

lemma parse_loop_unterminated:
  "i < length s \<Longrightarrow> s ! i = CHR ''('' \<Longrightarrow> CHR '')'' \<notin> set (drop i s) \<Longrightarrow> b \<le> i \<Longrightarrow>
   parse_loop s b acc = None"
proof (induction s b acc rule: parse_loop.induct)
  case (1 s b acc)
  show ?case
  proof (cases "find s (CHR '')'') b")
    case None
    then show ?thesis by (simp add: parse_loop.simps [of s b acc])
  next
    case (Some c)
    then have c: "b \<le> c" "c < length s" "s ! c = CHR '')''" by (auto dest: find_Some)
    have "c < i"
    proof (rule ccontr)
      assume "\<not> c < i"
      with c have "s ! c \<in> set (drop i s)" by (intro nth_in_drop) auto
      with c "1.prems" show False by simp
    qed
    with "1.prems" have "CHR ''('' \<in> set (drop c s)"
      using nth_in_drop [of i s c] by simp
    then obtain b' where b': "find s (CHR ''('') c = Some b'"
      using find_None [of s "CHR ''(''" c] by (cases "find s (CHR ''('') c") auto
    have "b' \<le> i"
    proof (rule ccontr)
      assume "\<not> b' \<le> i"
      with b' \<open>c < i\<close> have "s ! i \<noteq> CHR ''(''" by (intro find_least [of s _ c b']) auto
      with "1.prems" show False by simp
    qed
    from "1.IH" [OF Some refl refl refl b' "1.prems"(1-3) this] Some b'
    show ?thesis by (simp cong: if_cong add: parse_loop.simps [of s b acc] Let_def)
  qed
qed

lemma parse_unterminated: "unterminated s \<Longrightarrow> parse s = None"
proof -
  assume "unterminated s"
  then obtain i where i: "i < length s" "s ! i = CHR ''(''" "CHR '')'' \<notin> set (drop i s)"
    by (auto simp: unterminated_iff)
  then have "CHR ''('' \<in> set (drop 0 s)" using nth_in_drop [of i s 0] by simp
  then obtain b where b: "find s (CHR ''('') 0 = Some b"
    using find_None [of s "CHR ''(''" 0] by (cases "find s (CHR ''('') 0") auto
  have "b \<le> i"
  proof (rule ccontr)
    assume "\<not> b \<le> i"
    with b have "s ! i \<noteq> CHR ''(''" by (intro find_least [of s _ 0 b]) auto
    with i show False by simp
  qed
  with i b show ?thesis by (simp add: parse_def parse_loop_unterminated)
qed

lemma unterminated_find_close:
  assumes "\<not> unterminated pre" "b < length pre" "pre ! b = CHR ''(''"
  shows "\<exists>c. find pre (CHR '')'') b = Some c"
proof -
  from assms have "CHR '')'' \<in> set (drop b pre)" by (auto simp: unterminated_iff)
  then show ?thesis using find_None [of pre "CHR '')''" b] by (cases "find pre (CHR '')'') b") auto
qed

lemma parse_loop_unfold:
  "parse_loop s b acc =
     (case find s (CHR '')'') b of
        None \<Rightarrow> None
      | Some c \<Rightarrow>
          (case find s (CHR ''('') c of
             None \<Rightarrow> Some (store_items (split (slice s (b + 1) c)) acc)
           | Some b' \<Rightarrow> parse_loop s b' (store_items (split (slice s (b + 1) c)) acc)))"
  unfolding store_items_def by (subst parse_loop.simps) (auto simp: Let_def split: option.splits)

lemma parse_loop_append_left:
  "\<not> unterminated pre \<Longrightarrow> b < length pre \<Longrightarrow> pre ! b = CHR ''('' \<Longrightarrow>
   parse_loop (pre @ rest) b acc =
     (case parse_loop pre b acc of None \<Rightarrow> None | Some acc' \<Rightarrow> parse_from rest acc')"
proof (induction pre b acc rule: parse_loop.induct)
  case (1 pre b acc)
  from unterminated_find_close [OF "1.prems"] obtain c where c: "find pre (CHR '')'') b = Some c"
    by blast
  then have c': "b \<le> c" "c < length pre" by (auto dest: find_Some)
  with c "1.prems" have fc: "find (pre @ rest) (CHR '')'') b = Some c"
    by (simp add: find_append_left)
  from c' have sl: "slice (pre @ rest) (b + 1) c = slice pre (b + 1) c"
    by (simp add: slice_append_left)
  define acc' where "acc' = store_items (split (slice pre (b + 1) c)) acc"
  have l: "parse_loop (pre @ rest) b acc =
     (case find (pre @ rest) (CHR ''('') c of None \<Rightarrow> Some acc'
      | Some b' \<Rightarrow> parse_loop (pre @ rest) b' acc')"
    using fc sl by (auto simp: parse_loop_unfold [of "pre @ rest" b acc] acc'_def split: option.splits)
  have r: "parse_loop pre b acc =
     (case find pre (CHR ''('') c of None \<Rightarrow> Some acc' | Some b' \<Rightarrow> parse_loop pre b' acc')"
    using c by (auto simp: parse_loop_unfold [of pre b acc] acc'_def split: option.splits)
  show ?case
  proof (cases "find pre (CHR ''('') c")
    case None
    with c' have "find (pre @ rest) (CHR ''('') c =
        map_option (\<lambda>i. length pre + i) (find rest (CHR ''('') 0)"
      by (simp add: find_append_left)
    with None l r show ?thesis
      by (auto simp: parse_from_def parse_loop_append_right split: option.splits)
  next
    case (Some b')
    then have b': "b' < length pre" "pre ! b' = CHR ''(''" by (auto dest: find_Some)
    from Some c' have "find (pre @ rest) (CHR ''('') c = Some b'"
      by (simp add: find_append_left)
    moreover have "parse_loop (pre @ rest) b' acc' =
      (case parse_loop pre b' acc' of None \<Rightarrow> None | Some a \<Rightarrow> parse_from rest a)"
      using "1.IH" [OF c refl refl refl Some "1.prems"(1) b'] unfolding acc'_def store_items_def .
    ultimately show ?thesis using l r Some by simp
  qed
qed

lemma parse_from_append:
  assumes "\<not> unterminated pre"
  shows "parse_from (pre @ rest) acc =
     (case parse_from pre acc of None \<Rightarrow> None | Some acc' \<Rightarrow> parse_from rest acc')"
proof (cases "find pre (CHR ''('') 0")
  case None
  then have "find (pre @ rest) (CHR ''('') 0 =
      map_option (\<lambda>i. length pre + i) (find rest (CHR ''('') 0)"
    by (simp add: find_append_left)
  with None show ?thesis
    by (auto simp: parse_from_def parse_loop_append_right split: option.splits)
next
  case (Some b)
  then have b: "b < length pre" "pre ! b = CHR ''(''" by (auto dest: find_Some)
  from Some have "find (pre @ rest) (CHR ''('') 0 = Some b" by (simp add: find_append_left)
  with Some parse_loop_append_left [OF assms b] show ?thesis by (simp add: parse_from_def)
qed

lemma unterminated_snoc_close: "\<not> unterminated (s @ '')'')"
  by (induction s) auto

lemma index_of_snoc: "c \<notin> set g \<Longrightarrow> index_of c (g @ [c]) = Some (length g)"
  by (induction g) auto

lemma parse_from_group:
  assumes "CHR '')'' \<notin> set g"
  shows "parse_from (''('' @ g @ '')'') acc = Some (store_items (split g) acc)"
proof -
  let ?s = "''('' @ g @ '')''"
  have o: "find ?s (CHR ''('') 0 = Some 0" by (simp add: find_def)
  have c: "find ?s (CHR '')'') 0 = Some (Suc (length g))"
    using assms by (simp add: find_def index_of_snoc)
  have n: "find ?s (CHR ''('') (Suc (length g)) = None" by (simp add: find_def)
  have sl: "slice ?s (0 + 1) (Suc (length g)) = g" by (simp add: slice_def)
  show ?thesis
    unfolding parse_from_def o option.case parse_loop_unfold [of ?s 0 acc] c n sl ..
qed

subsection \<open>Splitting and joining\<close>

lemma split_aux_word:
  "\<forall>c\<in>set w. \<not> isspace c \<Longrightarrow> split_aux (w @ rest) cur = split_aux rest (cur @ w)"
  by (induction w arbitrary: cur) auto

lemma isspace_space: "isspace (CHR '' '')"
  by (simp add: isspace_def)

lemma split_join:
  "\<forall>w\<in>set ws. w \<noteq> [] \<and> (\<forall>c\<in>set w. \<not> isspace c) \<Longrightarrow> split (join '' '' ws) = ws"
proof (induction "'' ''" ws rule: join.induct)
  case 1
  show ?case by (simp add: split_def)
next
  case (2 x)
  then show ?case using split_aux_word [of x "[]" "[]"] by (simp add: split_def)
next
  case (3 x y ys)
  then have "split_aux (x @ '' '' @ join '' '' (y # ys)) [] = x # split_aux (join '' '' (y # ys)) []"
    using split_aux_word [of x "'' '' @ join '' '' (y # ys)" "[]"] by (simp add: isspace_space)
  with 3 show ?case by (simp add: split_def)
qed

lemma join_Cons: "vs \<noteq> [] \<Longrightarrow> join sep (k # vs) = k @ sep @ join sep vs"
  by (cases vs) auto

lemma set_join: "set (join sep ws) \<subseteq> set sep \<union> \<Union> (set ` set ws)"
  by (induction sep ws rule: join.induct) auto

lemma map_pystr_Some: "map (pystr (\<lambda>s. s)) (map Some vs) = vs"
  by (induction vs) auto

lemma stringify_loop_tokens:
  "\<forall>kv\<in>set m. snd kv \<noteq> [] \<Longrightarrow>
   stringify_loop (\<lambda>s. s) (tokens_dict m) msg = Inr (msg @ concat (map group m))"
proof (induction m arbitrary: msg)
  case Nil
  show ?case by (simp add: tokens_dict_def)
next
  case (Cons kv m)
  obtain k vs where kv: "kv = (k, vs)" by (cases kv)
  with Cons.prems obtain v vs' where vs: "vs = v # vs'" by (cases vs) auto
  from Cons.prems have "\<forall>kv\<in>set m. snd kv \<noteq> []" by simp
  from Cons.IH [OF this] have IH: "\<And>msg. stringify_loop (\<lambda>s. s) (tokens_dict m) msg =
      Inr (msg @ concat (map group m))" .
  have "tokens_dict (kv # m) = (k, Some (Some v # map Some vs')) # tokens_dict m"
    by (simp add: tokens_dict_def kv vs)
  moreover have "map (pystr (\<lambda>s. s)) (Some v # map Some vs') = v # vs'"
    using map_pystr_Some [of "v # vs'"] by simp
  moreover have "group kv = ''('' @ k @ '' '' @ join '' '' (v # vs') @ '')''"
    by (simp add: group_def kv vs)
  ultimately have "stringify_loop (\<lambda>s. s) (tokens_dict (kv # m)) msg =
      stringify_loop (\<lambda>s. s) (tokens_dict m) (msg @ group kv)"
    by (simp del: map_map list.map)
  then show ?case by (simp add: IH)
qed

lemma fold_update_distinct:
  "distinct (map fst (acc @ m)) \<Longrightarrow>
   fold (\<lambda>kv. AList.update (fst kv) (snd kv)) m acc = acc @ m"
proof (induction m arbitrary: acc)
  case Nil
  show ?case by simp
next
  case (Cons kv m)
  have u: "AList.update (fst kv) (snd kv) acc = acc @ [kv]"
    using Cons.prems by (induction acc) auto
  from Cons.prems have "distinct (map fst ((acc @ [kv]) @ m))" by simp
  from Cons.IH [OF this] u show ?case by simp
qed

lemma parse_from_groups:
  "\<forall>kv\<in>set m. plain_token (fst kv) \<and> snd kv \<noteq> [] \<and> (\<forall>t\<in>set (snd kv). plain_token t) \<Longrightarrow>
   parse_from (concat (map group m)) acc =
     Some (fold (\<lambda>kv. AList.update (fst kv) (snd kv)) m acc)"
proof (induction m arbitrary: acc)
  case Nil
  show ?case by (simp add: parse_from_def find_def)
next
  case (Cons kv m)
  obtain k vs where kv: "kv = (k, vs)" by (cases kv)
  from Cons.prems kv have k: "plain_token k" and vs: "vs \<noteq> []" "\<forall>t\<in>set vs. plain_token t"
    by auto
  let ?g = "join '' '' (k # vs)"
  have g: "group kv = ''('' @ ?g @ '')''" using vs by (simp add: group_def kv join_Cons)
  have "CHR '')'' \<notin> set ?g"
    using set_join [of "'' ''" "k # vs"] k vs by (auto simp: plain_token_def)
  then have pg: "parse_from (group kv) acc = Some (store_items (split ?g) acc)"
    unfolding g by (rule parse_from_group)
  have "split ?g = k # vs"
    using k vs by (intro split_join) (auto simp: plain_token_def)
  with vs have st: "store_items (split ?g) acc = AList.update k vs acc"
    by (cases vs) (auto simp: store_items_def)
  have "\<not> unterminated (group kv)"
    using unterminated_snoc_close [of "''('' @ ?g"] by (simp add: g)
  from parse_from_append [OF this, of "concat (map group m)" acc] pg st
  have "parse_from (concat (map group (kv # m))) acc =
      parse_from (concat (map group m)) (AList.update k vs acc)" by simp
  also have "\<dots> = Some (fold (\<lambda>kv. AList.update (fst kv) (snd kv)) m (AList.update k vs acc))"
    using Cons.prems by (intro Cons.IH) simp
  finally show ?case by (simp add: kv)
qed

subsection \<open>Round trip\<close>

text \<open>
  Claim C1, as amended. For every dictionary \<open>m\<close> (distinct tags, as in any Python
  dictionary) from tags to non-empty token sequences, where every tag and every token is
  a non-empty string with no parenthesis and no whitespace, \<open>stringify\<close> succeeds and
  \<open>parse\<close> of its result is \<open>m\<close> itself, tags in the same order.
\<close>

theorem roundtrip:
  assumes "distinct (map fst m)"
    and "\<forall>kv\<in>set m. plain_token (fst kv) \<and> snd kv \<noteq> [] \<and> (\<forall>t\<in>set (snd kv). plain_token t)"
  shows "\<exists>s. stringify_tokens m = Inr s \<and> parse s = Some m"
proof -
  from assms(2) have "stringify_tokens m = Inr (concat (map group m))"
    using stringify_loop_tokens [of m "[]"] by (simp add: stringify_tokens_def stringify_def)
  moreover have "parse (concat (map group m)) = Some m"
    using parse_from_groups [OF assms(2), of "[]"] fold_update_distinct [of "[]" m] assms(1)
    by (simp add: parse_parse_from)
  ultimately show ?thesis by simp
qed

theorem roundtrip_witness:
  "stringify_tokens [(''angle'', [''0.5'']), (''track'', [''7.1'', ''8'', ''-1''])] =
     Inr ''(angle 0.5)(track 7.1 8 -1)'' \<and>
   parse ''(angle 0.5)(track 7.1 8 -1)'' =
     Some [(''angle'', [''0.5'']), (''track'', [''7.1'', ''8'', ''-1''])]"
proof -
  have "distinct (map fst [(''angle'', [''0.5'']), (''track'', [''7.1'', ''8'', ''-1''])])"
    by simp
  moreover have "\<forall>kv\<in>set [(''angle'', [''0.5'']), (''track'', [''7.1'', ''8'', ''-1''])].
      plain_token (fst kv) \<and> snd kv \<noteq> [] \<and> (\<forall>t\<in>set (snd kv). plain_token t)"
    by (simp add: plain_token_def isspace_def)
  ultimately obtain s
    where "stringify_tokens [(''angle'', [''0.5'']), (''track'', [''7.1'', ''8'', ''-1''])] = Inr s"
      and "parse s = Some [(''angle'', [''0.5'']), (''track'', [''7.1'', ''8'', ''-1''])]"
    using roundtrip by blast
  moreover have "stringify_tokens [(''angle'', [''0.5'']), (''track'', [''7.1'', ''8'', ''-1''])] =
      Inr ''(angle 0.5)(track 7.1 8 -1)''"
    by (simp add: stringify_tokens_def stringify_def tokens_dict_def)
  ultimately show ?thesis by simp
qed

text \<open>
  The claim as stated allows whitespace inside a token and an empty tag. A token with a
  blank comes back as two tokens; a group with an empty tag comes back as nothing.
\<close>

theorem roundtrip_counterexample:
  "stringify_tokens [(''t'', [''a b''])] = Inr ''(t a b)'' \<and>
   parse ''(t a b)'' = Some [(''t'', [''a'', ''b''])] \<and>
   \<not> dict_eq [(''t'', [''a'', ''b''])] [(''t'', [''a b''])] \<and>
   stringify_tokens [('''', [''a''])] = Inr ''( a)'' \<and>
   parse ''( a)'' = Some [] \<and>
   \<not> dict_eq [] [('''', [''a''])]"
  by (simp add: stringify_tokens_def stringify_def tokens_dict_def parse_def find_def
      parse_loop.simps slice_def split_def isspace_def dict_eq_def)

subsection \<open>Malformed input\<close>

lemma parse_loop_terminated:
  "\<not> unterminated s \<Longrightarrow> b < length s \<Longrightarrow> s ! b = CHR ''('' \<Longrightarrow>
   parse_loop s b acc \<noteq> None"
proof (induction s b acc rule: parse_loop.induct)
  case (1 s b acc)
  from unterminated_find_close [OF "1.prems"] obtain c where c: "find s (CHR '')'') b = Some c"
    by blast
  show ?case
  proof (cases "find s (CHR ''('') c")
    case None
    with c show ?thesis by (simp add: parse_loop_unfold [of s b acc])
  next
    case (Some b')
    then have b': "b' < length s" "s ! b' = CHR ''(''" by (auto dest: find_Some)
    from "1.IH" [OF c refl refl refl Some "1.prems"(1) b'] c Some
    show ?thesis unfolding parse_loop_unfold [of s b acc] store_items_def by simp
  qed
qed

lemma parse_terminated: "\<not> unterminated s \<Longrightarrow> parse s \<noteq> None"
proof (cases "find s (CHR ''('') 0")
  case None
  then show ?thesis by (simp add: parse_def)
next
  case (Some b)
  assume "\<not> unterminated s"
  moreover from Some have "b < length s" "s ! b = CHR ''(''" by (auto dest: find_Some)
  ultimately have "parse_loop s b [] \<noteq> None" by (rule parse_loop_terminated)
  with Some show ?thesis by (simp add: parse_def)
qed

lemma parse_drop_group:
  assumes "\<not> unterminated pre" "CHR '')'' \<notin> set g" "length (split g) < 2"
  shows "parse (pre @ ''('' @ g @ '')'' @ post) = parse (pre @ post)"
proof -
  have g: "\<And>acc. parse_from (''('' @ g @ '')'') acc = Some acc"
    using parse_from_group [OF assms(2)] assms(3) by (simp add: store_items_def)
  have "\<not> unterminated (''('' @ g @ '')'')"
    using unterminated_snoc_close [of "''('' @ g"] by simp
  from parse_from_append [OF this, of post] g
  have "\<And>acc. parse_from ((''('' @ g @ '')'') @ post) acc = parse_from post acc" by simp
  then have "parse_from (pre @ (''('' @ g @ '')'') @ post) [] = parse_from (pre @ post) []"
    by (simp only: parse_from_append [OF assms(1)])
  then show ?thesis by (simp add: parse_parse_from)
qed

text \<open>
  Claim C2, as amended. \<open>parse\<close> returns \<open>None\<close> (MalformedInput, no partial result)
  exactly on the texts with an opening parenthesis that no closing parenthesis follows
  anywhere; on every other text it returns a dictionary. A group with fewer than two
  whitespace-separated tokens, after a prefix in which every opening parenthesis is
  followed by a closing one, is dropped: the result is that of the text without the
  group, whatever follows. \<open>(angle 1.0\<close> decodes to \<open>None\<close>, \<open>(angle)\<close> to the empty
  dictionary.
\<close>

theorem parse_malformed:
  "(parse s = None) = unterminated s \<and>
   (\<not> unterminated pre \<and> CHR '')'' \<notin> set g \<and> length (split g) < 2 \<longrightarrow>
      parse (pre @ ''('' @ g @ '')'' @ post) = parse (pre @ post)) \<and>
   parse ''(angle 1.0'' = None \<and>
   parse ''(angle)'' = Some []"
proof -
  have "(parse s = None) = unterminated s"
    using parse_unterminated [of s] parse_terminated [of s] by blast
  moreover have "parse ''(angle 1.0'' = None" by (rule parse_unterminated) simp
  moreover have "parse ''(angle)'' = Some []"
    using parse_from_group [of "''angle''" "[]"]
    by (simp add: parse_parse_from store_items_def split_def isspace_def)
  ultimately show ?thesis using parse_drop_group [of pre g post] by blast
qed

theorem parse_malformed_witness:
  "(parse ''(rpm 5)(angle 1.0'' = None) = unterminated ''(rpm 5)(angle 1.0'' \<and>
   unterminated ''(rpm 5)(angle 1.0'' \<and>
   \<not> unterminated ''(rpm 5)'' \<and> CHR '')'' \<notin> set ''angle'' \<and> length (split ''angle'') < 2 \<and>
   parse (''(rpm 5)'' @ ''('' @ ''angle'' @ '')'' @ ''(gear 3)'') = parse (''(rpm 5)'' @ ''(gear 3)'') \<and>
   parse ''(rpm 5)(gear 3)'' = Some [(''rpm'', [''5'']), (''gear'', [''3''])]"
proof -
  have a: "\<not> unterminated ''(rpm 5)'' \<and> CHR '')'' \<notin> set ''angle'' \<and> length (split ''angle'') < 2"
    by (simp add: split_def isspace_def)
  have b: "parse ''(rpm 5)(gear 3)'' = Some [(''rpm'', [''5'']), (''gear'', [''3''])]"
    by (simp add: parse_def find_def parse_loop.simps slice_def split_def isspace_def)
  have c: "unterminated ''(rpm 5)(angle 1.0''" by simp
  from parse_malformed [of "''(rpm 5)(angle 1.0''" "''(rpm 5)''" "''angle''" "''(gear 3)''"] a b c
  show ?thesis by blast
qed

text \<open>
  The claim as stated fails where an opening parenthesis has no close of its own but a
  closing parenthesis follows it. The scanner does not nest: it pairs each opening
  parenthesis it stops at with the next closing one, so in \<open>((a b)\<close> the inner
  parenthesis becomes part of the tag, in \<open>(a 1)(b (c 2)\<close> part of a value, and a
  dictionary is returned for both.
\<close>

theorem parse_unmatched_counterexample:
  "parse ''((a b)'' = Some [(''(a'', [''b''])] \<and>
   parse ''(a 1)(b (c 2)'' = Some [(''a'', [''1'']), (''b'', [''(c'', ''2''])]"
  by (simp add: parse_def find_def parse_loop.simps slice_def split_def isspace_def)

subsection \<open>Entries that stringify skips\<close>

lemma stringify_loop_no_empty:
  "Some [] \<notin> snd ` set m \<Longrightarrow>
   stringify_loop str m msg = Inr (msg @ concat (map (render str) (filter (\<lambda>kv. emitted (snd kv)) m)))"
proof (induction m arbitrary: msg)
  case Nil
  show ?case by simp
next
  case (Cons kv m)
  obtain key "value" where kv: "kv = (key, value)" by (cases kv)
  from Cons.prems have ne: "value \<noteq> Some []" and m: "Some [] \<notin> snd ` set m"
    by (auto simp: kv)
  note IH = Cons.IH [OF m]
  show ?case
  proof (cases "value")
    case None
    then show ?thesis by (simp add: kv IH)
  next
    case (Some vs)
    with ne obtain v0 vs' where vs: "vs = v0 # vs'" by (cases vs) auto
    show ?thesis by (cases v0) (simp_all add: kv Some vs IH)
  qed
qed

lemma stringify_loop_empty:
  "Some [] \<in> snd ` set m \<Longrightarrow> stringify_loop str m msg = Inl IndexError"
proof (induction m arbitrary: msg)
  case Nil
  then show ?case by simp
next
  case (Cons kv m)
  obtain key "value" where kv: "kv = (key, value)" by (cases kv)
  show ?case
  proof (cases "value = Some []")
    case True
    then show ?thesis by (simp add: kv)
  next
    case False
    with Cons.prems have "Some [] \<in> snd ` set m" by (auto simp: kv)
    note IH = Cons.IH [OF this]
    show ?thesis
    proof (cases "value")
      case None
      then show ?thesis by (simp add: kv IH)
    next
      case (Some vs)
      with False obtain v0 vs' where vs: "vs = v0 # vs'" by (cases vs) auto
      show ?thesis by (cases v0) (simp_all add: kv Some vs IH)
    qed
  qed
qed

text \<open>
  Claim C8, as amended. An entry whose value is \<open>None\<close>, or whose value is a non-empty
  list with first element \<open>None\<close>, is skipped; when no value is the empty list,
  \<open>stringify\<close> returns the groups of the other entries, in order, and does not fail.
  A value that is the empty list is not skipped: \<open>value[0]\<close> raises \<open>IndexError\<close>.
\<close>

theorem stringify_skips:
  "stringify str m =
     (if Some [] \<in> snd ` set m then Inl IndexError
      else Inr (concat (map (render str) (filter (\<lambda>kv. emitted (snd kv)) m))))"
  using stringify_loop_no_empty [of m str "[]"] stringify_loop_empty [of m str "[]"]
  by (simp add: stringify_def)

theorem stringify_skips_witness:
  "stringify (\<lambda>s. s)
     [(''focus'', None), (''angle'', Some [None]), (''gear'', Some [Some ''1'']),
      (''track'', Some [None, Some ''2'']), (''z'', Some [Some ''3'', None])] =
   Inr ''(gear 1)(z 3 None)''"
  using stringify_skips [of "\<lambda>s. s" "[(''focus'', None), (''angle'', Some [None]), (''gear'', Some [Some ''1'']),
      (''track'', Some [None, Some ''2'']), (''z'', Some [Some ''3'', None])]"]
  by simp

text \<open>An empty value sequence makes \<open>stringify\<close> fail.\<close>

theorem stringify_empty_counterexample:
  "stringify (\<lambda>s. s) [(''focus'', Some []), (''gear'', Some [Some ''1''])] = Inl IndexError"
  by (simp add: stringify_def)

section \<open>Properties of the vehicle state\<close>

lemma setD_sensors: "setD B f s = Ok u s' \<Longrightarrow> sensors s' = sensors s"
  by (cases f) (auto split: sum.splits)

lemma setD_float:
  "setD B (F f) s = Ok u s' \<Longrightarrow> sensors s = Some d \<Longrightarrow>
   lists s' = lists s \<and> ints s' = ints s \<and> (\<forall>g. g \<noteq> f \<longrightarrow> floats s' g = floats s g) \<and>
   float_set B d s' f"
  by (auto simp: float_set_def getFloatD_def split: sum.splits option.splits list.splits) metis

lemma setD_list:
  "setD B (L f) s = Ok u s' \<Longrightarrow> sensors s = Some d \<Longrightarrow>
   floats s' = floats s \<and> ints s' = ints s \<and> (\<forall>g. g \<noteq> f \<longrightarrow> lists s' g = lists s g) \<and>
   list_set B d s' f"
  by (auto simp: list_set_def getFloatListD_def split: sum.splits option.splits list.splits)

lemma setD_int:
  "setD B (I f) s = Ok u s' \<Longrightarrow> sensors s = Some d \<Longrightarrow>
   floats s' = floats s \<and> lists s' = lists s \<and> (\<forall>g. g \<noteq> f \<longrightarrow> ints s' g = ints s g) \<and>
   int_set B d s' f"
  by (auto simp: int_set_def getIntD_def split: sum.splits option.splits list.splits) metis

lemma float_set_cong: "floats s' f = floats s f \<Longrightarrow> float_set B d s' f = float_set B d s f"
  by (simp add: float_set_def)

lemma list_set_cong: "lists s' f = lists s f \<Longrightarrow> list_set B d s' f = list_set B d s f"
  by (simp add: list_set_def)

lemma int_set_cong: "ints s' f = ints s f \<Longrightarrow> int_set B d s' f = int_set B d s f"
  by (simp add: int_set_def)

lemma seq_setD:
  "seq (map (setD B) fs) s = Ok u s' \<Longrightarrow> sensors s = Some d \<Longrightarrow>
   sensors s' = Some d \<and>
   (\<forall>f. if F f \<in> set fs then float_set B d s' f else floats s' f = floats s f) \<and>
   (\<forall>f. if L f \<in> set fs then list_set B d s' f else lists s' f = lists s f) \<and>
   (\<forall>f. if I f \<in> set fs then int_set B d s' f else ints s' f = ints s f)"
proof (induction fs arbitrary: s)
  case Nil
  then show ?case by simp
next
  case (Cons f0 fs)
  from Cons.prems(1) obtain s1 where s1: "setD B f0 s = Ok () s1"
    and rest: "seq (map (setD B) fs) s1 = Ok u s'"
    by (auto split: res.splits)
  from s1 Cons.prems(2) have d1: "sensors s1 = Some d" by (simp add: setD_sensors)
  from Cons.IH [OF rest d1]
  have sens: "sensors s' = Some d"
    and fl: "\<And>f. if F f \<in> set fs then float_set B d s' f else floats s' f = floats s1 f"
    and li: "\<And>f. if L f \<in> set fs then list_set B d s' f else lists s' f = lists s1 f"
    and it: "\<And>f. if I f \<in> set fs then int_set B d s' f else ints s' f = ints s1 f"
    by auto
  show ?case
  proof (cases f0)
    case (F f)
    from setD_float [OF s1 [unfolded F] Cons.prems(2)]
    have a: "lists s1 = lists s" "ints s1 = ints s" "\<And>g. g \<noteq> f \<Longrightarrow> floats s1 g = floats s g"
      "float_set B d s1 f" by auto
    have "if F g \<in> set (f0 # fs) then float_set B d s' g else floats s' g = floats s g" for g
      using fl [of g] a(3) [of g] a(4) float_set_cong [of s' g s1 B d]
      by (cases "F g \<in> set fs"; cases "g = f") (simp_all add: F)
    moreover have "if L g \<in> set (f0 # fs) then list_set B d s' g else lists s' g = lists s g" for g
      using li [of g] a(1) by (simp add: F)
    moreover have "if I g \<in> set (f0 # fs) then int_set B d s' g else ints s' g = ints s g" for g
      using it [of g] a(2) by (simp add: F)
    ultimately show ?thesis using sens by blast
  next
    case (L f)
    from setD_list [OF s1 [unfolded L] Cons.prems(2)]
    have a: "floats s1 = floats s" "ints s1 = ints s" "\<And>g. g \<noteq> f \<Longrightarrow> lists s1 g = lists s g"
      "list_set B d s1 f" by auto
    have "if L g \<in> set (f0 # fs) then list_set B d s' g else lists s' g = lists s g" for g
      using li [of g] a(3) [of g] a(4) list_set_cong [of s' g s1 B d]
      by (cases "L g \<in> set fs"; cases "g = f") (simp_all add: L)
    moreover have "if F g \<in> set (f0 # fs) then float_set B d s' g else floats s' g = floats s g" for g
      using fl [of g] a(1) by (simp add: L)
    moreover have "if I g \<in> set (f0 # fs) then int_set B d s' g else ints s' g = ints s g" for g
      using it [of g] a(2) by (simp add: L)
    ultimately show ?thesis using sens by blast
  next
    case (I f)
    from setD_int [OF s1 [unfolded I] Cons.prems(2)]
    have a: "floats s1 = floats s" "lists s1 = lists s" "\<And>g. g \<noteq> f \<Longrightarrow> ints s1 g = ints s g"
      "int_set B d s1 f" by auto
    have "if I g \<in> set (f0 # fs) then int_set B d s' g else ints s' g = ints s g" for g
      using it [of g] a(3) [of g] a(4) int_set_cong [of s' g s1 B d]
      by (cases "I g \<in> set fs"; cases "g = f") (simp_all add: I)
    moreover have "if F g \<in> set (f0 # fs) then float_set B d s' g else floats s' g = floats s g" for g
      using fl [of g] a(1) by (simp add: I)
    moreover have "if L g \<in> set (f0 # fs) then list_set B d s' g else lists s' g = lists s g" for g
      using li [of g] a(2) by (simp add: I)
    ultimately show ?thesis using sens by blast
  qed
qed

lemma setters_all: "f \<in> set setters"
proof (cases f)
  case (F x)
  then show ?thesis by (cases x) (simp_all add: setters_def)
next
  case (L x)
  then show ?thesis by (cases x) (simp_all add: setters_def)
next
  case (I x)
  then show ?thesis by (cases x) (simp_all add: setters_def)
qed

lemma setFromMsg_None:
  "parse msg = None \<Longrightarrow> setFromMsg B msg self = Exn AttributeError (self\<lparr>sensors := None\<rparr>)"
  by (simp add: setFromMsg_def setters_def getFloatD_def)

text \<open>
  Claim C7, as amended. When \<open>setFromMsg\<close> returns, the message decoded to a
  dictionary \<open>d\<close>, and every attribute was set from \<open>d\<close> alone: an attribute whose tag
  is absent from \<open>d\<close> is \<open>None\<close> (unknown), whatever it held before, and an attribute
  whose tag is present holds the converted tokens of the message.
\<close>

theorem setFromMsg_fields:
  assumes "setFromMsg B msg self = Ok () self'"
  shows "\<exists>d. parse msg = Some d \<and> sensors self' = Some d \<and>
    (\<forall>f. float_set B d self' f) \<and> (\<forall>f. list_set B d self' f) \<and> (\<forall>f. int_set B d self' f)"
proof (cases "parse msg")
  case None
  with assms show ?thesis by (simp add: setFromMsg_None)
next
  case (Some d)
  from assms have "seq (map (setD B) setters) (self\<lparr>sensors := parse msg\<rparr>) = Ok () self'"
    by (simp add: setFromMsg_def)
  from seq_setD [OF this, of d] Some
  have "sensors self' = Some d" "\<And>f. float_set B d self' f" "\<And>f. list_set B d self' f"
    "\<And>f. int_set B d self' f"
    by (simp_all add: setters_all)
  with Some show ?thesis by blast
qed

lemma setFromMsg_rpm_only:
  "setFromMsg \<lparr>py_float = map_of [(''5'', 5)], py_int = map_of [(''3'', 3)],
       py_str = (\<lambda>v. '''')\<rparr> ''(rpm 5)''
     (CarState_init\<lparr>floats := (floats CarState_init)(Angle := Some 1)\<rparr>) =
   Ok () \<lparr>sensors = Some [(''rpm'', [''5''])], floats = (\<lambda>f. None)(Rpm := Some 5),
      lists = (\<lambda>f. None), ints = (\<lambda>f. None)\<rparr>"
  by (auto simp: setFromMsg_def setters_def parse_def find_def parse_loop.simps slice_def
      split_def isspace_def getFloatD_def getFloatListD_def getIntD_def CarState_init_def
      fun_eq_iff)

lemma setFromMsg_three_tags:
  "setFromMsg \<lparr>py_float = map_of [(''5'', 5)], py_int = map_of [(''3'', 3)],
       py_str = (\<lambda>v. '''')\<rparr> ''(rpm 5)(gear 3)(track 5 5)''
     (CarState_init\<lparr>floats := (floats CarState_init)(Angle := Some 1)\<rparr>) =
   Ok () \<lparr>sensors = Some [(''rpm'', [''5'']), (''gear'', [''3'']), (''track'', [''5'', ''5''])],
      floats = (\<lambda>f. None)(Rpm := Some 5), lists = (\<lambda>f. None)(Track := Some [5, 5]),
      ints = (\<lambda>f. None)(Gear := Some 3)\<rparr>"
  by (auto simp: setFromMsg_def setters_def parse_def find_def parse_loop.simps slice_def
      split_def isspace_def getFloatD_def getFloatListD_def getIntD_def CarState_init_def
      fun_eq_iff)

theorem setFromMsg_fields_witness:
  "(let r = setFromMsg \<lparr>py_float = map_of [(''5'', 5)], py_int = map_of [(''3'', 3)],
                py_str = (\<lambda>v. '''')\<rparr>
              ''(rpm 5)(gear 3)(track 5 5)''
              (CarState_init\<lparr>floats := (floats CarState_init)(Angle := Some 1)\<rparr>)
    in r = Ok () (state_of r) \<and>
       parse ''(rpm 5)(gear 3)(track 5 5)'' = sensors (state_of r) \<and>
       floats (state_of r) Angle = None \<and> floats (state_of r) Rpm = Some 5 \<and>
       ints (state_of r) Gear = Some 3 \<and> lists (state_of r) Track = Some [5, 5])"
proof -
  let ?B = "\<lparr>py_float = map_of [(''5'', 5::real)], py_int = map_of [(''3'', 3::int)],
             py_str = (\<lambda>v::scalar. '''')\<rparr>"
  let ?s = "CarState_init\<lparr>floats := (floats CarState_init)(Angle := Some 1)\<rparr>"
  let ?m = "''(rpm 5)(gear 3)(track 5 5)''"
  define r where "r = setFromMsg ?B ?m ?s"
  have ok: "setFromMsg ?B ?m ?s = Ok () (state_of r)"
    unfolding r_def by (simp only: setFromMsg_three_tags state_of.simps)
  from setFromMsg_fields [OF ok] obtain d where d: "parse ?m = Some d" "sensors (state_of r) = Some d"
    "float_set ?B d (state_of r) Angle" "float_set ?B d (state_of r) Rpm"
    "int_set ?B d (state_of r) Gear" "list_set ?B d (state_of r) Track"
    by blast
  have "sensors (state_of r) = Some [(''rpm'', [''5'']), (''gear'', [''3'']), (''track'', [''5'', ''5''])]"
    unfolding r_def setFromMsg_three_tags by simp
  with d(2) have dd: "d = [(''rpm'', [''5'']), (''gear'', [''3'']), (''track'', [''5'', ''5''])]"
    by simp
  from d have "floats (state_of r) Angle = None" "floats (state_of r) Rpm = Some 5"
    "ints (state_of r) Gear = Some 3" "lists (state_of r) Track = Some [5, 5]"
    "parse ?m = sensors (state_of r)"
    unfolding dd by (simp_all add: float_set_def int_set_def list_set_def)
  with ok show ?thesis unfolding Let_def r_def [symmetric] by simp
qed

text \<open>
  The claim as stated keeps the previous value of an absent tag. Here \<open>angle\<close> was 1, the
  message carries \<open>rpm\<close> only, and \<open>angle\<close> is \<open>None\<close> afterwards.
\<close>

theorem setFromMsg_keeps_counterexample:
  "(let s = CarState_init\<lparr>floats := (floats CarState_init)(Angle := Some 1)\<rparr>;
        r = setFromMsg \<lparr>py_float = map_of [(''5'', 5)], py_int = map_of [(''3'', 3)],
                py_str = (\<lambda>v. '''')\<rparr> ''(rpm 5)'' s
    in raised r = None \<and> floats s Angle = Some 1 \<and> floats (state_of r) Angle = None \<and>
       floats (state_of r) Rpm = Some 5)"
  unfolding Let_def setFromMsg_rpm_only by simp

section \<open>Properties of the racing loop\<close>

lemma contains_Nil: "sub \<noteq> [] \<Longrightarrow> \<not> contains [] sub"
  by simp

lemma racing_tick_ceiling:
  assumes "currentStep st + 1 = max_steps" "\<not> contains buf ''***shutdown***''"
    "\<not> contains buf ''***restart***''"
  shows "racing_tick P max_steps (Some buf) send_ok st =
    (if send_ok then Next (Some Abandon) (st\<lparr>consecutive_timeouts := 0, currentStep := max_steps\<rparr>)
     else SysExit)"
  using assms by (simp add: racing_tick_def send_def Let_def)

lemma racing_tick_reaches:
  assumes "racing_tick P s recv send_ok st = Next out st'" "currentStep st = s - 1"
    "currentStep st' = s"
  shows "out = Some Abandon \<and> drv st' = drv st"
proof (cases recv)
  case None
  with assms show ?thesis by (auto simp: racing_tick_def)
next
  case (Some buf)
  have "racing_tick P s recv send_ok st =
      send send_ok Abandon (st\<lparr>consecutive_timeouts := 0, currentStep := s\<rparr>)"
    using assms Some
    by (auto simp: racing_tick_def Let_def send_def split: if_splits res.splits)
  with assms(1) have "Next out st' =
      send send_ok Abandon (st\<lparr>consecutive_timeouts := 0, currentStep := s\<rparr>)" by simp
  then show ?thesis by (auto simp: send_def split: if_splits)
qed

lemma racing_tick_unbounded:
  assumes "racing_tick P 0 recv send_ok st = Next out st'" "0 \<le> currentStep st"
  shows "out \<noteq> Some Abandon \<and> 0 \<le> currentStep st'"
  using assms
  by (auto simp: racing_tick_def send_def Let_def split: option.splits if_splits res.splits)

lemma racing_loop_unbounded:
  "0 \<le> currentStep st \<Longrightarrow> Abandon \<notin> set (fst (racing_loop P 0 evs st))"
proof (induction evs arbitrary: st)
  case Nil
  show ?case by simp
next
  case (Cons ev evs)
  obtain recv send_ok where ev: "ev = (recv, send_ok)" by (cases ev)
  show ?case
  proof (cases "racing_tick P 0 recv send_ok st")
    case (Next out st')
    from racing_tick_unbounded [OF Next Cons.prems]
    have a: "out \<noteq> Some Abandon" "0 \<le> currentStep st'" by auto
    from Cons.IH [OF a(2)] a(1) Next show ?thesis
      by (auto simp: ev split: prod.splits option.splits)
  qed (simp_all add: ev)
qed

text \<open>
  Claim C6. A pass of the racing loop that takes \<open>currentStep\<close> from \<open>s - 1\<close> to \<open>s\<close>,
  the step ceiling, hands the literal \<open>(meta 1)\<close> to the socket and leaves the driver
  untouched: \<open>drive\<close> is not called, whatever the payload. Every datagram without a
  server marker received at step \<open>s - 1\<close> is such a pass. With ceiling 0 the literal is
  never sent in an episode, whatever the network does.
\<close>

theorem step_ceiling:
  "(racing_tick P s recv send_ok st = Next out st' \<and> currentStep st = s - 1 \<and> currentStep st' = s
      \<longrightarrow> out = Some Abandon \<and> drv st' = drv st) \<and>
   (currentStep st = s - 1 \<and> \<not> contains buf ''***shutdown***'' \<and> \<not> contains buf ''***restart***''
      \<longrightarrow> racing_tick P s (Some buf) send_ok st =
           (if send_ok
            then Next (Some Abandon) (st\<lparr>consecutive_timeouts := 0, currentStep := s\<rparr>)
            else SysExit)) \<and>
   wire Abandon = ''(meta 1)'' \<and>
   Abandon \<notin> set (fst (racing_loop P 0 evs (episode_start st)))"
  using racing_tick_reaches [of P s recv send_ok st out st']
    racing_tick_ceiling [of st s buf P send_ok]
    racing_loop_unbounded [of "episode_start st" P evs]
  by (simp add: episode_start_def)

theorem step_ceiling_witness:
  "racing_tick \<lparr>drive = (\<lambda>msg d. Ok msg d), onShutDown = (\<lambda>d. d), onRestart = (\<lambda>d. d)\<rparr> 5
     (Some ''(angle 0.5)'') True
     \<lparr>drv = (7::nat), currentStep = 4, consecutive_timeouts = 2, shutdownClient = False\<rparr> =
   Next (Some Abandon)
     \<lparr>drv = 7, currentStep = 5, consecutive_timeouts = 0, shutdownClient = False\<rparr> \<and>
   wire Abandon = ''(meta 1)'' \<and>
   \<not> contains ''(angle 0.5)'' ''***shutdown***'' \<and>
   \<not> contains ''(angle 0.5)'' ''***restart***'' \<and>
   Abandon \<notin> set (fst (racing_loop
     \<lparr>drive = (\<lambda>msg d. Ok msg d), onShutDown = (\<lambda>d. d), onRestart = (\<lambda>d. d)\<rparr> 0
     [(Some ''(angle 0.5)'', True), (None, True), (Some ''(angle 0.6)'', True)]
     (episode_start
        \<lparr>drv = (7::nat), currentStep = 4, consecutive_timeouts = 2, shutdownClient = False\<rparr>)))"
  using step_ceiling [of "\<lparr>drive = (\<lambda>msg d. Ok msg d), onShutDown = (\<lambda>d. d), onRestart = (\<lambda>d. d)\<rparr>"
      5 "Some ''(angle 0.5)''" True
      "\<lparr>drv = (7::nat), currentStep = 4, consecutive_timeouts = 2, shutdownClient = False\<rparr>"
      "Some Abandon"
      "\<lparr>drv = 7, currentStep = 5, consecutive_timeouts = 0, shutdownClient = False\<rparr>"
      "''(angle 0.5)''"
      "[(Some ''(angle 0.5)'', True), (None, True), (Some ''(angle 0.6)'', True)]"]
  by simp

section \<open>Properties of the gear rules\<close>

lemma upshift_rpm_ge: "upshift_rpm g = Some th \<Longrightarrow> 1 \<le> g \<and> g \<le> 6 \<and> 7000 \<le> th"
  by (auto simp: upshift_rpm_def split: if_splits)

lemma downshift_rpm_le: "downshift_rpm g = Some th \<Longrightarrow> 2 \<le> g \<and> g \<le> 6 \<and> th \<le> 4000"
  by (auto simp: downshift_rpm_def split: if_splits)

lemma not_both_due: "upshift_due g rpm speed \<Longrightarrow> \<not> downshift_due g rpm"
  by (auto simp: upshift_due_def downshift_due_def split: option.splits
      dest!: upshift_rpm_ge downshift_rpm_le)

lemma Driver_gear_known:
  assumes "getRpm (state self) = Some rpm" "getGear (state self) = Some g"
  shows "Driver_gear self = Ok () (self\<lparr>control := (control self)\<lparr>gear :=
      Some (if rpm > 7000 \<and> g < 6 then g + 1 else if rpm < 3000 \<and> g > 1 then g - 1 else g)\<rparr>\<rparr>)"
  using assms
  by (simp add: Driver_gear_def need_def Let_def UPSHIFT_RPM_def DOWNSHIFT_RPM_def
      MAX_GEAR_def MIN_GEAR_def)

lemma auto_shift_forward:
  assumes "getRpm (state self) = Some rpm" "getSpeedX (state self) = Some speed"
    "gear (control self) = Some g" "g \<noteq> - 1"
  shows "gear (control (auto_shift self)) =
      Some (if upshift_due g rpm speed then g + 1 else if downshift_due g rpm then g - 1 else g) \<and>
    accel (control (auto_shift self)) =
      (if downshift_due g rpm \<and> accel (control self) > 0 then max (accel (control self) - 0.2) 0
       else accel (control self))"
proof (cases "upshift_due g rpm speed")
  case True
  with not_both_due have nd: "\<not> downshift_due g rpm" by blast
  from True assms have "upshift_step (Some g) (Some rpm) (Some speed) self =
      Ok () (self\<lparr>control := (control self)\<lparr>gear := Some (g + 1)\<rparr>\<rparr>)"
    by (auto simp: upshift_step_def upshift_due_def need_def split: option.splits)
  moreover from nd have "downshift_step (Some g) (Some rpm)
      (self\<lparr>control := (control self)\<lparr>gear := Some (g + 1)\<rparr>\<rparr>) =
      Ok () (self\<lparr>control := (control self)\<lparr>gear := Some (g + 1)\<rparr>\<rparr>)"
    by (auto simp: downshift_step_def downshift_due_def need_def split: option.splits)
  ultimately show ?thesis using assms True nd
    by (simp add: auto_shift_def auto_shift_try_def Let_def)
next
  case False
  with assms have u: "upshift_step (Some g) (Some rpm) (Some speed) self = Ok () self"
    by (auto simp: upshift_step_def upshift_due_def need_def split: option.splits)
  show ?thesis
  proof (cases "downshift_due g rpm")
    case True
    with assms have "state_of (downshift_step (Some g) (Some rpm) self) =
      (if accel (control self) > 0
       then self\<lparr>control := (control self)\<lparr>accel := max (accel (control self) - 0.2) 0,
              gear := Some (g - 1)\<rparr>\<rparr>
       else self\<lparr>control := (control self)\<lparr>gear := Some (g - 1)\<rparr>\<rparr>)"
      by (auto simp: downshift_step_def downshift_due_def need_def Let_def split: option.splits)
    with u assms True False show ?thesis
      by (simp add: auto_shift_def auto_shift_try_def Let_def)
  next
    case nd: False
    then have "downshift_step (Some g) (Some rpm) self = Ok () self"
      by (auto simp: downshift_step_def downshift_due_def need_def split: option.splits)
    with u assms nd False show ?thesis
      by (simp add: auto_shift_def auto_shift_try_def Let_def)
  qed
qed

lemma auto_shift_reverse:
  assumes "getSpeedX (state self) = Some speed" "gear (control self) = Some (- 1)"
  shows "gear (control (auto_shift self)) = Some (if speed > 0.1 then 1 else - 1) \<and>
    accel (control (auto_shift self)) = accel (control self)"
  using assms by (simp add: auto_shift_def auto_shift_try_def Let_def need_def)

text \<open>
  Claim C5, as amended. With RPM and gear known, \<open>Driver.gear\<close> commands gear + 1 when
  RPM is above 7000 and the gear below 6, else gear - 1 when RPM is below 3000 and the
  gear above 1, else the gear as it is; it does not touch accel, and from a gear of 0 or
  more it never commands reverse; from reverse the same formula commands gear 0 when RPM
  is above 7000 and reverse otherwise. With RPM, speed and the commanded gear known,
  \<open>_auto_shift\<close> shifts up from gears 1 to 5 when RPM is above the gear's threshold and
  speed is positive, else down from gears 2 to 6 when RPM is below the gear's threshold,
  then lowering a positive accel by 0.2 with floor 0, else keeps the gear; from a gear
  other than reverse it never commands reverse. In reverse it commands gear 1 when speed
  is above 0.1 and stays in reverse otherwise.
\<close>

theorem gear_rules:
  "(getRpm (state self) = Some rpm \<and> getGear (state self) = Some g \<longrightarrow>
      Driver_gear self = Ok () (self\<lparr>control := (control self)\<lparr>gear :=
        Some (if rpm > 7000 \<and> g < 6 then g + 1 else if rpm < 3000 \<and> g > 1 then g - 1 else g)\<rparr>\<rparr>) \<and>
      (0 \<le> g \<longrightarrow> gear (control (state_of (Driver_gear self))) \<noteq> Some (- 1)) \<and>
      (g = - 1 \<longrightarrow> gear (control (state_of (Driver_gear self))) =
        Some (if rpm > 7000 then 0 else - 1))) \<and>
   (getRpm (state d) = Some r \<and> getSpeedX (state d) = Some v \<and> gear (control d) = Some c \<and> c \<noteq> - 1 \<longrightarrow>
      gear (control (auto_shift d)) =
        Some (if upshift_due c r v then c + 1 else if downshift_due c r then c - 1 else c) \<and>
      accel (control (auto_shift d)) =
        (if downshift_due c r \<and> accel (control d) > 0 then max (accel (control d) - 0.2) 0
         else accel (control d)) \<and>
      gear (control (auto_shift d)) \<noteq> Some (- 1)) \<and>
   (getSpeedX (state e) = Some w \<and> gear (control e) = Some (- 1) \<longrightarrow>
      gear (control (auto_shift e)) = Some (if w > 0.1 then 1 else - 1) \<and>
      accel (control (auto_shift e)) = accel (control e))"
proof -
  have "gear (control (auto_shift d)) \<noteq> Some (- 1)"
    if a: "getRpm (state d) = Some r" "getSpeedX (state d) = Some v" "gear (control d) = Some c"
      "c \<noteq> - 1"
  proof -
    have "upshift_due c r v \<Longrightarrow> 1 \<le> c"
      by (auto simp: upshift_due_def split: option.splits dest!: upshift_rpm_ge)
    moreover have "downshift_due c r \<Longrightarrow> 2 \<le> c"
      by (auto simp: downshift_due_def split: option.splits dest!: downshift_rpm_le)
    ultimately show ?thesis using auto_shift_forward [OF a] a(4) by auto
  qed
  then show ?thesis
    using Driver_gear_known [of self rpm g] auto_shift_forward [of d r v c]
      auto_shift_reverse [of e w]
    by auto
qed

theorem gear_rules_witness:
  "(let S = \<lparr>state = CarState_init\<lparr>floats := (\<lambda>f. None)(Rpm := Some 7200),
                                     ints := (\<lambda>f. None)(Gear := Some 3)\<rparr>,
             control = CarControl_init\<rparr>;
        D = \<lparr>state = CarState_init\<lparr>floats := (\<lambda>f. None)(Rpm := Some 2400, SpeedX := Some 10)\<rparr>,
             control = CarControl_init\<lparr>gear := Some 3, accel := 0.5\<rparr>\<rparr>;
        E = \<lparr>state = CarState_init\<lparr>floats := (\<lambda>f. None)(SpeedX := Some 0)\<rparr>,
             control = CarControl_init\<lparr>gear := Some (- 1)\<rparr>\<rparr>;
        R = \<lparr>state = CarState_init\<lparr>floats := (\<lambda>f. None)(Rpm := Some 8000),
                                     ints := (\<lambda>f. None)(Gear := Some (- 1))\<rparr>,
             control = CarControl_init\<rparr>
    in getRpm (state S) = Some 7200 \<and> getGear (state S) = Some 3 \<and>
       gear (control (state_of (Driver_gear S))) = Some 4 \<and>
       getRpm (state D) = Some 2400 \<and> getSpeedX (state D) = Some 10 \<and>
       gear (control D) = Some 3 \<and>
       gear (control (auto_shift D)) = Some 2 \<and> accel (control (auto_shift D)) = 0.3 \<and>
       getSpeedX (state E) = Some 0 \<and> gear (control E) = Some (- 1) \<and>
       gear (control (auto_shift E)) = Some (- 1) \<and>
       getRpm (state R) = Some 8000 \<and> getGear (state R) = Some (- 1) \<and>
       gear (control (state_of (Driver_gear R))) = Some 0)"
proof -
  let ?S = "\<lparr>state = CarState_init\<lparr>floats := (\<lambda>f. None)(Rpm := Some 7200),
                                     ints := (\<lambda>f. None)(Gear := Some 3)\<rparr>,
             control = CarControl_init\<rparr>"
  let ?D = "\<lparr>state = CarState_init\<lparr>floats := (\<lambda>f. None)(Rpm := Some 2400, SpeedX := Some 10)\<rparr>,
             control = CarControl_init\<lparr>gear := Some 3, accel := 0.5\<rparr>\<rparr>"
  let ?E = "\<lparr>state = CarState_init\<lparr>floats := (\<lambda>f. None)(SpeedX := Some 0)\<rparr>,
             control = CarControl_init\<lparr>gear := Some (- 1)\<rparr>\<rparr>"
  let ?R = "\<lparr>state = CarState_init\<lparr>floats := (\<lambda>f. None)(Rpm := Some 8000),
                                     ints := (\<lambda>f. None)(Gear := Some (- 1))\<rparr>,
             control = CarControl_init\<rparr>"
  have h: "getRpm (state ?S) = Some 7200" "getGear (state ?S) = Some 3"
    "getRpm (state ?D) = Some 2400" "getSpeedX (state ?D) = Some 10" "gear (control ?D) = Some 3"
    "getSpeedX (state ?E) = Some 0" "gear (control ?E) = Some (- 1)"
    "accel (control ?D) = 0.5"
    "getRpm (state ?R) = Some 8000" "getGear (state ?R) = Some (- 1)"
    by (simp_all add: getRpm_def getGear_def getSpeedX_def CarState_init_def CarControl_init_def)
  have due: "\<not> upshift_due 3 2400 10" "downshift_due 3 2400"
    by (simp_all add: upshift_due_def downshift_due_def upshift_rpm_def downshift_rpm_def)
  from gear_rules [of ?S 7200 3 ?D 2400 10 3 ?E 0]
    gear_rules [of ?R 8000 "- 1" ?D 2400 10 3 ?E 0] h due
  show ?thesis unfolding Let_def by simp
qed

text \<open>
  The claim as stated fails on either rule. \<open>Driver.gear\<close> outputs reverse when the car
  is in reverse and RPM is not above 7000, and leaves accel alone on a downshift;
  \<open>_auto_shift\<close> does not shift up at speed 0, and stays in reverse at speed 0.
\<close>

theorem gear_rules_counterexample:
  "gear (control (state_of (Driver_gear
     \<lparr>state = CarState_init\<lparr>floats := (\<lambda>f. None)(Rpm := Some 5000),
                           ints := (\<lambda>f. None)(Gear := Some (- 1))\<rparr>,
      control = CarControl_init\<rparr>))) = Some (- 1) \<and>
   accel (control (state_of (Driver_gear
     \<lparr>state = CarState_init\<lparr>floats := (\<lambda>f. None)(Rpm := Some 2400),
                           ints := (\<lambda>f. None)(Gear := Some 3)\<rparr>,
      control = CarControl_init\<lparr>accel := 0.5\<rparr>\<rparr>))) = 0.5 \<and>
   gear (control (auto_shift
     \<lparr>state = CarState_init\<lparr>floats := (\<lambda>f. None)(Rpm := Some 7200, SpeedX := Some 0)\<rparr>,
      control = CarControl_init\<lparr>gear := Some 3\<rparr>\<rparr>)) = Some 3 \<and>
   gear (control (auto_shift
     \<lparr>state = CarState_init\<lparr>floats := (\<lambda>f. None)(Rpm := Some 1000, SpeedX := Some 0)\<rparr>,
      control = CarControl_init\<lparr>gear := Some (- 1)\<rparr>\<rparr>)) = Some (- 1)"
  by (simp add: Driver_gear_def need_def Let_def UPSHIFT_RPM_def DOWNSHIFT_RPM_def
      MAX_GEAR_def MIN_GEAR_def getRpm_def getGear_def getSpeedX_def CarState_init_def
      CarControl_init_def auto_shift_def auto_shift_try_def upshift_step_def downshift_step_def
      upshift_rpm_def downshift_rpm_def)

section \<open>Properties of the recovery state machine\<close>

lemma toMsg_Inr: "\<exists>out. toMsg B c = Inr out"
proof -
  have "Some [] \<notin> snd ` set (actions c)" by (simp add: actions_def)
  from stringify_loop_no_empty [OF this, of "py_str B" "[]"] show ?thesis
    by (simp add: toMsg_def stringify_def)
qed

lemma control_toMsg_Ok:
  "raised (control_toMsg B self) = None \<and> state_of (control_toMsg B self) = self \<and>
   map_option Inr (returned (control_toMsg B self)) = Some (toMsg B (control self))"
  using toMsg_Inr [of B "control self"] by (auto simp: control_toMsg_def)

lemma call_super_frame:
  "call_super super_drive msg self = Ok out self1 \<Longrightarrow>
   use_model self1 = use_model self \<and> in_recovery self1 = in_recovery self \<and>
   recovery_start_time self1 = recovery_start_time self \<and>
   in_post_recovery self1 = in_post_recovery self \<and>
   post_recovery_start_time self1 = post_recovery_start_time self \<and>
   last_recovery_time self1 = last_recovery_time self \<and>
   session_start_time self1 = session_start_time self"
  by (auto simp: call_super_def put_base_def split: res.splits)

lemma drive_enters_reversing:
  assumes um: "use_model self" and normal: "\<not> in_recovery self" "\<not> in_post_recovery self"
    and s1: "call_super super_drive msg self = Ok out1 self1"
    and s2: "call_super super_drive msg
        (self1\<lparr>in_recovery := True, recovery_start_time := Some (clock k)\<rparr>) = Ok out2 self2"
    and speed: "getSpeedX (state self1) = Some v" "v < 0.3"
    and angle: "floats (state self2) Angle = Some a"
    and t: "clock k - session_start_time self > 5" "clock k - last_recovery_time self > 5"
      "clock (Suc k) - clock k \<le> 3"
  shows "ModelDriver_drive super_drive get_model_prediction clock k B msg self =
    control_toMsg B (self2\<lparr>control := (control self2)\<lparr>gear := Some (- 1), accel := 0.3, brake := 0,
      steer := (if a > 0.5 then - 0.5 else if a < - 0.5 then 0.5 else 0)\<rparr>\<rparr>)"
proof -
  note f1 = call_super_frame [OF s1]
  note f2 = call_super_frame [OF s2]
  have b1: "drive_body super_drive get_model_prediction (clock k) B msg self =
      Inr (self1\<lparr>in_recovery := True, recovery_start_time := Some (clock k)\<rparr>)"
    using um normal s1 f1 speed t
    by (simp add: drive_body_def post_recovery_phase_def stuck_def Let_def)
  have b2: "drive_body super_drive get_model_prediction (clock (Suc k)) B msg
      (self1\<lparr>in_recovery := True, recovery_start_time := Some (clock k)\<rparr>) =
      Inl (control_toMsg B (self2\<lparr>control := (control self2)\<lparr>gear := Some (- 1), accel := 0.3,
        brake := 0, steer := (if a > 0.5 then - 0.5 else if a < - 0.5 then 0.5 else 0)\<rparr>\<rparr>))"
    using um normal s2 f1 f2 angle t
    by (simp add: drive_body_def post_recovery_phase_def recovery_phase_def need_def Let_def)
  show ?thesis
    by (simp add: ModelDriver_drive.simps [of _ _ _ k] b1 ModelDriver_drive.simps [of _ _ _ "Suc k"] b2)
qed

lemma drive_exits_reversing:
  assumes um: "use_model self" and st: "in_recovery self" "\<not> in_post_recovery self"
    and started: "recovery_start_time self = Some t0" "clock k - t0 > 3"
    and s1: "call_super super_drive msg self = Ok out1 self1"
  shows "ModelDriver_drive super_drive get_model_prediction clock k B msg self =
    control_toMsg B (self1\<lparr>in_recovery := False, last_recovery_time := clock k,
      in_post_recovery := True, post_recovery_start_time := Some (clock k),
      control := (control self1)\<lparr>gear := Some 1, accel := 0.1, brake := 0, steer := 0\<rparr>\<rparr>)"
proof -
  note f1 = call_super_frame [OF s1]
  have "drive_body super_drive get_model_prediction (clock k) B msg self =
      Inl (control_toMsg B (self1\<lparr>in_recovery := False, last_recovery_time := clock k,
        in_post_recovery := True, post_recovery_start_time := Some (clock k),
        control := (control self1)\<lparr>gear := Some 1, accel := 0.1, brake := 0, steer := 0\<rparr>\<rparr>))"
    using um st started s1 f1
    by (simp add: drive_body_def post_recovery_phase_def recovery_phase_def Let_def)
  then show ?thesis by (simp add: ModelDriver_drive.simps [of _ _ _ k])
qed

lemma drive_holds_forward:
  assumes um: "use_model self" and st: "in_post_recovery self"
    and started: "post_recovery_start_time self = Some t1" "clock k - t1 < 4"
    and s1: "call_super super_drive msg self = Ok out1 self1"
  shows "ModelDriver_drive super_drive get_model_prediction clock k B msg self =
    control_toMsg B (self1\<lparr>control := (control self1)\<lparr>gear := Some 1, accel := 0.5, brake := 0\<rparr>\<rparr>)"
proof -
  note f1 = call_super_frame [OF s1]
  have "drive_body super_drive get_model_prediction (clock k) B msg self =
      Inl (control_toMsg B
        (self1\<lparr>control := (control self1)\<lparr>gear := Some 1, accel := 0.5, brake := 0\<rparr>\<rparr>))"
    using um st started s1 f1
    by (simp add: drive_body_def post_recovery_phase_def Let_def)
  then show ?thesis by (simp add: ModelDriver_drive.simps [of _ _ _ k])
qed

lemma drive_resumes:
  assumes um: "use_model self" and st: "in_post_recovery self" "\<not> in_recovery self"
    and started: "post_recovery_start_time self = Some t1" "clock k - t1 \<ge> 4"
    and s1: "call_super super_drive msg self = Ok out1 self1"
    and ns: "stuck (clock k) (getSpeedX (state self1)) self = Inr False"
  shows "ModelDriver_drive super_drive get_model_prediction clock k B msg self =
    normal_model_control get_model_prediction B (self1\<lparr>in_post_recovery := False\<rparr>)"
proof -
  note f1 = call_super_frame [OF s1]
  from ns f1 have "stuck (clock k) (getSpeedX (state self1)) (self1\<lparr>in_post_recovery := False\<rparr>) =
      Inr False"
    by (auto simp: stuck_def split: if_splits option.splits)
  then have "drive_body super_drive get_model_prediction (clock k) B msg self =
      Inl (normal_model_control get_model_prediction B (self1\<lparr>in_post_recovery := False\<rparr>))"
    using um st started s1 f1
    by (simp add: drive_body_def post_recovery_phase_def Let_def)
  then show ?thesis by (simp add: ModelDriver_drive.simps [of _ _ _ k])
qed

lemma state_of_control_toMsg: "state_of (control_toMsg B self) = self"
  using control_toMsg_Ok [of B self] by simp

lemma drive_body_returns:
  assumes "drive_body super_drive get_model_prediction current_time B msg self = Inl r"
    "\<not> in_recovery self"
  shows "\<not> in_recovery (state_of r)"
proof (cases "call_super super_drive msg self")
  case (Exn e self1)
  with call_super_in_recovery [of super_drive msg self] assms show ?thesis
    by (auto simp: drive_body_def)
next
  case (Ok out self1)
  with call_super_in_recovery [of super_drive msg self] assms(2)
  have n: "\<not> in_recovery self1" by simp
  from assms(1) Ok n show ?thesis
    by (auto simp: drive_body_def post_recovery_phase_def normal_model_control_def Let_def
        state_of_control_toMsg
        split: if_splits sum.splits option.splits bool.splits prod.splits)
qed

lemma drive_body_again_stuck:
  assumes "drive_body super_drive get_model_prediction current_time B msg self = Inr self'"
  shows "current_time - last_recovery_time self > 5 \<and> current_time - session_start_time self > 5"
proof -
  from assms obtain out self1 where s1: "call_super super_drive msg self = Ok out self1"
    by (auto simp: drive_body_def split: res.splits)
  note f1 = call_super_frame [OF s1]
  from assms s1 f1 show ?thesis
    by (auto simp: drive_body_def post_recovery_phase_def stuck_def Let_def
        split: if_splits sum.splits option.splits bool.splits)
qed

lemma reentry_after_cooldown:
  assumes "\<not> in_recovery self"
    "in_recovery (state_of (ModelDriver_drive super_drive get_model_prediction clock k B msg self))"
  shows "clock k - last_recovery_time self > 5"
proof (cases "drive_body super_drive get_model_prediction (clock k) B msg self")
  case (Inl r)
  with drive_body_returns [OF Inl assms(1)] assms(2) show ?thesis
    by (simp add: ModelDriver_drive.simps [of _ _ _ k])
next
  case (Inr self')
  from drive_body_again_stuck [OF Inr] show ?thesis by simp
qed

text \<open>
  Claim C3, as amended. With model control enabled (\<open>use_model\<close>), in the Normal state,
  when the base class's step returns with a known speed of magnitude below 0.3, the
  session is older than 5 seconds and the last recovery ended more than 5 seconds ago,
  one call of \<open>drive\<close> enters Reversing, stamps its start with the clock reading, and
  returns the encoded command with gear -1, accel 0.3, brake 0 and the steer that opposes
  the heading. The call re-invokes itself, so the base class's step runs a second time
  (the heading is read after it) and the clock is read a second time, here no more than
  3 seconds after the first reading.
\<close>

theorem normal_to_reversing:
  assumes "use_model self" "\<not> in_recovery self" "\<not> in_post_recovery self"
    and "call_super super_drive msg self = Ok out1 self1"
    and "call_super super_drive msg
        (self1\<lparr>in_recovery := True, recovery_start_time := Some (clock k)\<rparr>) = Ok out2 self2"
    and "getSpeedX (state self1) = Some v" "\<bar>v\<bar> < 0.3"
    and "floats (state self2) Angle = Some a"
    and "clock k - session_start_time self > 5" "clock k - last_recovery_time self > 5"
    and "clock (Suc k) - clock k \<le> 3"
  shows "(let r = ModelDriver_drive super_drive get_model_prediction clock k B msg self
    in raised r = None \<and> in_recovery (state_of r) \<and> \<not> in_post_recovery (state_of r) \<and>
       recovery_start_time (state_of r) = Some (clock k) \<and>
       gear (control (state_of r)) = Some (- 1) \<and> accel (control (state_of r)) = 0.3 \<and>
       brake (control (state_of r)) = 0 \<and>
       steer (control (state_of r)) = (if a > 0.5 then - 0.5 else if a < - 0.5 then 0.5 else 0) \<and>
       map_option Inr (returned r) = Some (toMsg B (control (state_of r))))"
proof -
  from assms(7) have v: "v < 0.3" by simp
  note f1 = call_super_frame [OF assms(4)]
  note f2 = call_super_frame [OF assms(5)]
  let ?s = "self2\<lparr>control := (control self2)\<lparr>gear := Some (- 1), accel := 0.3, brake := 0,
      steer := (if a > 0.5 then - 0.5 else if a < - 0.5 then 0.5 else 0)\<rparr>\<rparr>"
  have "ModelDriver_drive super_drive get_model_prediction clock k B msg self = control_toMsg B ?s"
    using assms(1-6) v assms(8-11) by (rule drive_enters_reversing)
  moreover have "in_recovery ?s" "\<not> in_post_recovery ?s" "recovery_start_time ?s = Some (clock k)"
    using f1 f2 assms(3) by simp_all
  ultimately show ?thesis
    unfolding Let_def using control_toMsg_Ok [of B ?s] by simp
qed

lemma identity_super:
  "call_super (\<lambda>msg bd. Ok msg bd) msg self = Ok msg self"
  by (simp add: call_super_def put_base_def)

theorem normal_to_reversing_witness:
  "(let self = (ModelDriver_init () 100)\<lparr>use_model := True, last_recovery_time := 96,
          state := CarState_init\<lparr>floats := (\<lambda>f. None)(SpeedX := Some 0.1, Angle := Some 0.7)\<rparr>\<rparr>;
        r = ModelDriver_drive (\<lambda>msg bd. Ok msg bd) (\<lambda>s. Inr None) (\<lambda>k. 106) 0
              \<lparr>py_float = (\<lambda>s. None), py_int = (\<lambda>s. None), py_str = (\<lambda>v. ''0'')\<rparr> '''' self
    in use_model self \<and> \<not> in_recovery self \<and> \<not> in_post_recovery self \<and>
       getSpeedX (state self) = Some 0.1 \<and> 106 - session_start_time self > 5 \<and>
       106 - last_recovery_time self > 5 \<and>
       raised r = None \<and> in_recovery (state_of r) \<and> recovery_start_time (state_of r) = Some 106 \<and>
       gear (control (state_of r)) = Some (- 1) \<and> accel (control (state_of r)) = 0.3 \<and>
       brake (control (state_of r)) = 0 \<and> steer (control (state_of r)) = - 0.5)"
proof -
  let ?self = "(ModelDriver_init () 100)\<lparr>use_model := True, last_recovery_time := 96,
      state := CarState_init\<lparr>floats := (\<lambda>f. None)(SpeedX := Some 0.1, Angle := Some 0.7)\<rparr>\<rparr>"
  let ?self1 = "?self\<lparr>in_recovery := True, recovery_start_time := Some 106\<rparr>"
  have h: "use_model ?self" "\<not> in_recovery ?self" "\<not> in_post_recovery ?self"
    "getSpeedX (state ?self) = Some 0.1" "\<bar>0.1::real\<bar> < 0.3"
    "floats (state ?self1) Angle = Some 0.7"
    "(106::real) - session_start_time ?self > 5" "(106::real) - last_recovery_time ?self > 5"
    "(106::real) - 106 \<le> 3"
    by (simp_all add: ModelDriver_init_def getSpeedX_def)
  from normal_to_reversing [of ?self "\<lambda>msg bd. Ok msg bd" "''''" "''''" ?self "\<lambda>k. 106" 0 "''''" ?self1
      "0.1" "0.7", OF h(1-3) identity_super identity_super h(4-9)] h
  show ?thesis unfolding Let_def by simp
qed

text \<open>
  The claim as stated holds for every drive step in the Normal state. A driver starts
  with \<open>use_model = False\<close>, and then \<open>drive\<close> is the base class's step alone: a stuck
  car stays in Normal, with the command unchanged.
\<close>

theorem normal_to_reversing_counterexample:
  "(let self = (ModelDriver_init () 100)\<lparr>last_recovery_time := 96,
          state := CarState_init\<lparr>floats := (\<lambda>f. None)(SpeedX := Some 0.1, Angle := Some 0.7)\<rparr>\<rparr>;
        r = ModelDriver_drive (\<lambda>msg bd. Ok msg bd) (\<lambda>s. Inr None) (\<lambda>k. 106) 0
              \<lparr>py_float = (\<lambda>s. None), py_int = (\<lambda>s. None), py_str = (\<lambda>v. ''0'')\<rparr> '''' self
    in \<not> in_recovery self \<and> \<not> in_post_recovery self \<and>
       getSpeedX (state self) = Some 0.1 \<and> 106 - session_start_time self > 5 \<and>
       106 - last_recovery_time self > 5 \<and>
       raised r = None \<and> \<not> in_recovery (state_of r) \<and> gear (control (state_of r)) = Some 1 \<and>
       accel (control (state_of r)) = 0)"
proof -
  let ?self = "(ModelDriver_init () 100)\<lparr>last_recovery_time := 96,
      state := CarState_init\<lparr>floats := (\<lambda>f. None)(SpeedX := Some 0.1, Angle := Some 0.7)\<rparr>\<rparr>"
  let ?B = "\<lparr>py_float = (\<lambda>s. None), py_int = (\<lambda>s. None), py_str = (\<lambda>v::scalar. ''0'')\<rparr>"
  have "ModelDriver_drive (\<lambda>msg bd. Ok msg bd) (\<lambda>s. Inr None) (\<lambda>k. 106) 0 ?B '''' ?self =
      control_toMsg ?B ?self"
    by (simp add: ModelDriver_drive.simps [of _ _ _ 0] drive_body_def identity_super
        ModelDriver_init_def)
  then show ?thesis
    unfolding Let_def using control_toMsg_Ok [of ?B ?self]
    by (simp add: ModelDriver_init_def getSpeedX_def CarControl_init_def)
qed

text \<open>
  Claim C4, as amended. With model control enabled: a call of \<open>drive\<close> more than 3
  seconds after Reversing began leaves Reversing for ForwardRecovery, records the clock
  reading as the end of the recovery and as the start of the forward phase, and commands
  gear 1, accel 0.1, brake 0, steer 0. A call less than 4 seconds after that start
  commands gear 1, accel 0.5, brake 0 and changes nothing else of what the base class's
  step left. A call at 4 seconds or more leaves ForwardRecovery and, unless the car is
  stuck again, applies the model's prediction. Whatever the mode, a call that finds the
  driver out of Reversing and leaves it in Reversing read a clock more than 5 seconds
  past the recorded end of the previous recovery. \<open>control_toMsg\<close> returns the encoded
  control and changes nothing.
\<close>

theorem recovery_exit_and_hold:
  "(use_model sa \<and> in_recovery sa \<and> \<not> in_post_recovery sa \<and> recovery_start_time sa = Some t0 \<and>
    clock k - t0 > 3 \<and> call_super super_drive msg sa = Ok oa sa1 \<longrightarrow>
      ModelDriver_drive super_drive get_model_prediction clock k B msg sa =
        control_toMsg B (sa1\<lparr>in_recovery := False, last_recovery_time := clock k,
          in_post_recovery := True, post_recovery_start_time := Some (clock k),
          control := (control sa1)\<lparr>gear := Some 1, accel := 0.1, brake := 0, steer := 0\<rparr>\<rparr>)) \<and>
   (use_model sb \<and> in_post_recovery sb \<and> post_recovery_start_time sb = Some t1 \<and>
    clock k - t1 < 4 \<and> call_super super_drive msg sb = Ok ob sb1 \<longrightarrow>
      ModelDriver_drive super_drive get_model_prediction clock k B msg sb =
        control_toMsg B (sb1\<lparr>control := (control sb1)\<lparr>gear := Some 1, accel := 0.5, brake := 0\<rparr>\<rparr>)) \<and>
   (use_model sc \<and> in_post_recovery sc \<and> \<not> in_recovery sc \<and>
    post_recovery_start_time sc = Some t2 \<and> clock k - t2 \<ge> 4 \<and>
    call_super super_drive msg sc = Ok oc sc1 \<and>
    stuck (clock k) (getSpeedX (state sc1)) sc = Inr False \<longrightarrow>
      ModelDriver_drive super_drive get_model_prediction clock k B msg sc =
        normal_model_control get_model_prediction B (sc1\<lparr>in_post_recovery := False\<rparr>)) \<and>
   (\<not> in_recovery sd \<and>
    in_recovery (state_of (ModelDriver_drive super_drive get_model_prediction clock k B msg sd)) \<longrightarrow>
      clock k - last_recovery_time sd > 5) \<and>
   raised (control_toMsg B s) = None \<and> state_of (control_toMsg B s) = s \<and>
   map_option Inr (returned (control_toMsg B s)) = Some (toMsg B (control s))"
  using drive_exits_reversing [of sa t0 clock k super_drive msg oa sa1 get_model_prediction B]
    drive_holds_forward [of sb t1 clock k super_drive msg ob sb1 get_model_prediction B]
    drive_resumes [of sc t2 clock k super_drive msg oc sc1 get_model_prediction B]
    reentry_after_cooldown [of sd super_drive get_model_prediction clock k B msg]
    control_toMsg_Ok [of B s]
  by blast

theorem recovery_exit_and_hold_witness:
  "(let B = \<lparr>py_float = (\<lambda>s. None), py_int = (\<lambda>s. None), py_str = (\<lambda>v. ''0'')\<rparr>;
        sa = (ModelDriver_init () 100)\<lparr>use_model := True, in_recovery := True,
               recovery_start_time := Some 106,
               state := CarState_init\<lparr>floats := (\<lambda>f. None)(SpeedX := Some 20)\<rparr>,
               control := CarControl_init\<lparr>gear := Some (- 1), accel := 0.3, steer := 0.5\<rparr>\<rparr>;
        sb = state_of (ModelDriver_drive (\<lambda>msg bd. Ok msg bd) (\<lambda>s. Inr (Some (0.2, 0.8, 0)))
               (\<lambda>k. 109.5) 0 B '''' sa);
        sc = state_of (ModelDriver_drive (\<lambda>msg bd. Ok msg bd) (\<lambda>s. Inr (Some (0.2, 0.8, 0)))
               (\<lambda>k. 112) 0 B '''' sb);
        sd = state_of (ModelDriver_drive (\<lambda>msg bd. Ok msg bd) (\<lambda>s. Inr (Some (0.2, 0.8, 0)))
               (\<lambda>k. 114) 0 B '''' sc);
        se = sd\<lparr>state := CarState_init\<lparr>floats := (\<lambda>f. None)(SpeedX := Some 0.1, Angle := Some 0)\<rparr>\<rparr>;
        sf = state_of (ModelDriver_drive (\<lambda>msg bd. Ok msg bd) (\<lambda>s. Inr (Some (0.2, 0.8, 0)))
               (\<lambda>k. 120) 0 B '''' se)
    in use_model sa \<and> in_recovery sa \<and> \<not> in_post_recovery sa \<and>
       recovery_start_time sa = Some 106 \<and> (109.5::real) - 106 > 3 \<and>
       \<not> in_recovery sb \<and> in_post_recovery sb \<and> last_recovery_time sb = 109.5 \<and>
       post_recovery_start_time sb = Some 109.5 \<and>
       gear (control sb) = Some 1 \<and> accel (control sb) = 0.1 \<and> brake (control sb) = 0 \<and>
       steer (control sb) = 0 \<and> (112::real) - 109.5 < 4 \<and>
       in_post_recovery sc \<and> gear (control sc) = Some 1 \<and> accel (control sc) = 0.5 \<and>
       brake (control sc) = 0 \<and> (114::real) - 109.5 \<ge> 4 \<and>
       \<not> in_post_recovery sd \<and> \<not> in_recovery sd \<and> steer (control sd) = 0.2 \<and>
       accel (control sd) = 0.8 \<and>
       \<not> in_recovery se \<and> in_recovery sf \<and> (120::real) - last_recovery_time se > 5 \<and>
       last_recovery_time se = 109.5)"
proof -
  let ?B = "\<lparr>py_float = (\<lambda>s. None), py_int = (\<lambda>s. None), py_str = (\<lambda>v::scalar. ''0'')\<rparr>"
  let ?sup = "\<lambda>(msg::string) (bd::unit \<times> driver). Ok msg bd"
  let ?p = "\<lambda>s::car_state. Inr (Some (0.2::real, 0.8::real, 0::real)) :: error + (real \<times> real \<times> real) option"
  let ?sa = "(ModelDriver_init () 100)\<lparr>use_model := True, in_recovery := True,
               recovery_start_time := Some 106,
               state := CarState_init\<lparr>floats := (\<lambda>f. None)(SpeedX := Some 20)\<rparr>,
               control := CarControl_init\<lparr>gear := Some (- 1), accel := 0.3, steer := 0.5\<rparr>\<rparr>"
  let ?sb = "?sa\<lparr>in_recovery := False, last_recovery_time := 109.5,
          in_post_recovery := True, post_recovery_start_time := Some 109.5,
          control := (control ?sa)\<lparr>gear := Some 1, accel := 0.1, brake := 0, steer := 0\<rparr>\<rparr>"
  let ?sc = "?sb\<lparr>control := (control ?sb)\<lparr>gear := Some 1, accel := 0.5, brake := 0\<rparr>\<rparr>"
  let ?sd = "?sc\<lparr>in_post_recovery := False\<rparr>"
  have a: "ModelDriver_drive ?sup ?p (\<lambda>k. 109.5) 0 ?B '''' ?sa = control_toMsg ?B ?sb"
    using recovery_exit_and_hold [where sa = ?sa and ?t0.0 = 106
        and clock = "\<lambda>k. 109.5" and k = 0 and super_drive = ?sup and msg = "''''"
        and oa = "''''" and ?sa1.0 = ?sa and get_model_prediction = ?p and B = ?B,
        THEN conjunct1]
    by (simp add: identity_super ModelDriver_init_def)
  have sb: "state_of (ModelDriver_drive ?sup ?p (\<lambda>k. 109.5) 0 ?B '''' ?sa) = ?sb"
    unfolding a by (rule state_of_control_toMsg)
  have b: "ModelDriver_drive ?sup ?p (\<lambda>k. 112) 0 ?B '''' ?sb = control_toMsg ?B ?sc"
    using recovery_exit_and_hold [where sb = ?sb
        and ?t1.0 = "109.5" and clock = "\<lambda>k. 112" and k = 0 and super_drive = ?sup
        and msg = "''''" and ob = "''''" and ?sb1.0 = ?sb and get_model_prediction = ?p
        and B = ?B, THEN conjunct2, THEN conjunct1]
    by (simp add: identity_super ModelDriver_init_def)
  have sc: "state_of (ModelDriver_drive ?sup ?p (\<lambda>k. 112) 0 ?B '''' ?sb) = ?sc"
    unfolding b by (rule state_of_control_toMsg)
  have c: "ModelDriver_drive ?sup ?p (\<lambda>k. 114) 0 ?B '''' ?sc = normal_model_control ?p ?B ?sd"
    using recovery_exit_and_hold [where sc = ?sc and ?t2.0 = "109.5"
        and clock = "\<lambda>k. 114" and k = 0 and super_drive = ?sup and msg = "''''"
        and oc = "''''" and ?sc1.0 = ?sc and get_model_prediction = ?p and B = ?B,
        THEN conjunct2, THEN conjunct2, THEN conjunct1]
    by (simp add: identity_super ModelDriver_init_def stuck_def getSpeedX_def)
  have sd: "state_of (ModelDriver_drive ?sup ?p (\<lambda>k. 114) 0 ?B '''' ?sc) =
      ?sd\<lparr>control := (control ?sd)\<lparr>steer := 0.2, accel := 0.8, brake := 0\<rparr>\<rparr>"
    unfolding c by (simp add: normal_model_control_def state_of_control_toMsg)
  let ?sd' = "?sd\<lparr>control := (control ?sd)\<lparr>steer := 0.2, accel := 0.8, brake := 0\<rparr>\<rparr>"
  let ?se = "?sd'\<lparr>state := CarState_init\<lparr>floats := (\<lambda>f. None)(SpeedX := Some 0.1, Angle := Some 0)\<rparr>\<rparr>"
  let ?sf = "state_of (ModelDriver_drive ?sup ?p (\<lambda>k. 120) 0 ?B '''' ?se)"
  have "ModelDriver_drive ?sup ?p (\<lambda>k. 120) 0 ?B '''' ?se =
      control_toMsg ?B (?se\<lparr>in_recovery := True, recovery_start_time := Some 120,
        control := (control ?se)\<lparr>gear := Some (- 1), accel := 0.3, brake := 0, steer := 0\<rparr>\<rparr>)"
    using drive_enters_reversing [of ?se ?sup "''''" "''''" ?se "\<lambda>k. 120" 0 "''''"
        "?se\<lparr>in_recovery := True, recovery_start_time := Some 120\<rparr>" "0.1" 0 ?p ?B]
    by (simp add: identity_super ModelDriver_init_def getSpeedX_def)
  then have f: "in_recovery ?sf" by (simp add: state_of_control_toMsg)
  have e: "\<not> in_recovery ?se" by (simp add: ModelDriver_init_def)
  from recovery_exit_and_hold [where sd = ?se and clock = "\<lambda>k. 120" and k = 0
      and super_drive = ?sup and msg = "''''" and get_model_prediction = ?p and B = ?B,
      THEN conjunct2, THEN conjunct2, THEN conjunct2, THEN conjunct1] e f
  have g: "(120::real) - last_recovery_time ?se > 5" by blast
  have h: "last_recovery_time ?se = 109.5" by (simp add: ModelDriver_init_def)
  show ?thesis
    unfolding Let_def sb sc sd using e f g h by (simp add: ModelDriver_init_def)
qed

text \<open>
  With \<open>use_model = False\<close> (the key \<open>m\<close> toggles it at any time) a driver that has
  been in Reversing for more than 3 seconds stays there, still commanding reverse.
\<close>

theorem recovery_exit_counterexample:
  "(let self = (ModelDriver_init () 100)\<lparr>in_recovery := True, recovery_start_time := Some 106,
          control := CarControl_init\<lparr>gear := Some (- 1), accel := 0.3\<rparr>\<rparr>;
        r = ModelDriver_drive (\<lambda>msg bd. Ok msg bd) (\<lambda>s. Inr None) (\<lambda>k. 109.5) 0
              \<lparr>py_float = (\<lambda>s. None), py_int = (\<lambda>s. None), py_str = (\<lambda>v. ''0'')\<rparr> '''' self
    in in_recovery self \<and> \<not> in_post_recovery self \<and> recovery_start_time self = Some 106 \<and>
       (109.5::real) - 106 > 3 \<and>
       raised r = None \<and> in_recovery (state_of r) \<and> \<not> in_post_recovery (state_of r) \<and>
       gear (control (state_of r)) = Some (- 1) \<and> accel (control (state_of r)) = 0.3)"
proof -
  let ?self = "(ModelDriver_init () 100)\<lparr>in_recovery := True, recovery_start_time := Some 106,
          control := CarControl_init\<lparr>gear := Some (- 1), accel := 0.3\<rparr>\<rparr>"
  let ?B = "\<lparr>py_float = (\<lambda>s. None), py_int = (\<lambda>s. None), py_str = (\<lambda>v::scalar. ''0'')\<rparr>"
  have "ModelDriver_drive (\<lambda>msg bd. Ok msg bd) (\<lambda>s. Inr None) (\<lambda>k. 109.5) 0 ?B '''' ?self =
      control_toMsg ?B ?self"
    by (simp add: ModelDriver_drive.simps [of _ _ _ 0] drive_body_def identity_super
        ModelDriver_init_def)
  then show ?thesis
    unfolding Let_def using control_toMsg_Ok [of ?B ?self]
    by (simp add: ModelDriver_init_def CarControl_init_def)
qed

section \<open>Properties of the learning driver\<close>

lemma setFromMsg_first_tick:
  "setFromMsg \<lparr>py_float = map_of [(''7200'', 7200), (''10'', 10), (''0'', 0)],
       py_int = map_of [(''1'', 1)], py_str = (\<lambda>v. ''0'')\<rparr>
     ''(rpm 7200)(speedX 10)(speedY 0)(angle 0)'' CarState_init =
   Ok () \<lparr>sensors = Some [(''rpm'', [''7200'']), (''speedX'', [''10'']), (''speedY'', [''0'']),
        (''angle'', [''0''])],
      floats = (\<lambda>f. None)(Rpm := Some 7200, SpeedX := Some 10, SpeedY := Some 0, Angle := Some 0),
      lists = (\<lambda>f. None), ints = (\<lambda>f. None)\<rparr>"
  by (auto simp: setFromMsg_def setters_def parse_def find_def parse_loop.simps slice_def
      split_def isspace_def getFloatD_def getFloatListD_def getIntD_def CarState_init_def
      fun_eq_iff)

lemma first_drive_gear:
  assumes "state self = CarState_init" "history_SpeedX self = []" "history_SpeedY self = []"
    "history_Angle self = []" "gear (control self) = Some g" "1 \<le> g" "g \<le> 3"
  shows "gear (control (state_of (LearningDriver_drive
      \<lparr>py_float = map_of [(''7200'', 7200), (''10'', 10), (''0'', 0)],
       py_int = map_of [(''1'', 1)], py_str = (\<lambda>v. ''0'')\<rparr> predict
      ''(rpm 7200)(speedX 10)(speedY 0)(angle 0)'' self))) = Some (g + 1)"
proof -
  let ?B = "\<lparr>py_float = map_of [(''7200'', 7200::real), (''10'', 10), (''0'', 0)],
       py_int = map_of [(''1'', 1::int)], py_str = (\<lambda>v::scalar. ''0'')\<rparr>"
  let ?m = "''(rpm 7200)(speedX 10)(speedY 0)(angle 0)''"
  let ?st = "\<lparr>sensors = Some [(''rpm'', [''7200'']), (''speedX'', [''10'']), (''speedY'', [''0'']),
        (''angle'', [''0''])],
      floats = (\<lambda>f. None)(Rpm := Some 7200, SpeedX := Some 10, SpeedY := Some 0, Angle := Some 0),
      lists = (\<lambda>f. None), ints = (\<lambda>f. None)\<rparr>"
  have s: "state_setFromMsg ?B ?m self = Ok () (self\<lparr>state := ?st\<rparr>)"
    unfolding state_setFromMsg_def assms(1) setFromMsg_first_tick by simp
  have up: "upshift_rpm g = Some 7000"
    using assms(6,7) by (auto simp: upshift_rpm_def)
  have dn: "\<And>th. downshift_rpm g = Some th \<Longrightarrow> th \<le> 4000"
    by (auto simp: downshift_rpm_def split: if_splits)
  let ?d = "set_controls 0 0 0 (update_history (self\<lparr>state := ?st\<rparr>))"
  have g: "gear (control ?d) = Some g" "getRpm (state ?d) = Some 7200"
    "getSpeedX (state ?d) = Some 10"
    using assms(5) by (simp_all add: set_controls_def update_history_def getRpm_def getSpeedX_def)
  have "gear (control (auto_shift ?d)) = Some (g + 1)"
    using g up dn assms(6,7)
    by (auto simp: auto_shift_def auto_shift_try_def upshift_step_def downshift_step_def
        need_def Let_def split: option.splits)
  moreover have "drive_try ?B predict ?m self = control_toMsg ?B (auto_shift ?d)"
    unfolding drive_try_def s using assms(2-4)
    by (simp add: update_history_def push_def window_size_def Let_def)
  ultimately show ?thesis
    using control_toMsg_Ok [of ?B "auto_shift ?d"]
    by (cases "control_toMsg ?B (auto_shift ?d)") (simp_all add: LearningDriver_drive_def)
qed

lemma rpm_change_uses_prev_rpm:
  "features_try self = Ok features self' \<Longrightarrow>
   \<exists>rpm. getRpm (state self) = Some rpm \<and> features ! 8 = rpm - prev_rpm self \<and>
     prev_rpm self' = rpm"
  by (auto simp: features_try_def need_def moving_average_def Let_def
      split: option.splits if_splits)

text \<open>
  Claim C9 at its failing input. \<open>onRestart\<close> empties the three history lists and
  nothing else: \<open>_prev_rpm\<close>, the previous sample of \<open>_prepare_features\<close>, and the
  control keep their values, where the constructor sets 0 and a fresh control. A driver
  that ended an episode in gear 2 answers the first message after \<open>onRestart\<close> with gear
  3, a freshly constructed one answers the same message with gear 2.
\<close>

theorem restart_keeps_history:
  "prev_rpm (LearningDriver_onRestart self) = prev_rpm self \<and>
   control (LearningDriver_onRestart self) = control self \<and>
   prev_rpm LearningDriver_init = 0 \<and>
   (let B = \<lparr>py_float = map_of [(''7200'', 7200), (''10'', 10), (''0'', 0)],
              py_int = map_of [(''1'', 1)], py_str = (\<lambda>v. ''0'')\<rparr>;
        msg = ''(rpm 7200)(speedX 10)(speedY 0)(angle 0)'';
        used = LearningDriver_init\<lparr>control := CarControl_init\<lparr>gear := Some 2\<rparr>,
                 history_SpeedX := [Some 30], history_SpeedY := [Some 0],
                 history_Angle := [Some 0], prev_rpm := 7200\<rparr>
    in prev_rpm (LearningDriver_onRestart used) = 7200 \<and>
       gear (control (state_of (LearningDriver_drive B predict msg (LearningDriver_onRestart used)))) =
         Some 3 \<and>
       gear (control (state_of (LearningDriver_drive B predict msg LearningDriver_init))) = Some 2)"
proof -
  let ?used = "LearningDriver_init\<lparr>control := CarControl_init\<lparr>gear := Some 2\<rparr>,
                 history_SpeedX := [Some 30], history_SpeedY := [Some 0],
                 history_Angle := [Some 0], prev_rpm := 7200\<rparr>"
  have a: "gear (control (state_of (LearningDriver_drive
      \<lparr>py_float = map_of [(''7200'', 7200), (''10'', 10), (''0'', 0)],
       py_int = map_of [(''1'', 1)], py_str = (\<lambda>v. ''0'')\<rparr> predict
      ''(rpm 7200)(speedX 10)(speedY 0)(angle 0)'' (LearningDriver_onRestart ?used)))) = Some (2 + 1)"
    by (rule first_drive_gear)
      (simp_all add: LearningDriver_onRestart_def LearningDriver_init_def)
  have b: "gear (control (state_of (LearningDriver_drive
      \<lparr>py_float = map_of [(''7200'', 7200), (''10'', 10), (''0'', 0)],
       py_int = map_of [(''1'', 1)], py_str = (\<lambda>v. ''0'')\<rparr> predict
      ''(rpm 7200)(speedX 10)(speedY 0)(angle 0)'' LearningDriver_init))) = Some (1 + 1)"
    by (rule first_drive_gear) (simp_all add: LearningDriver_init_def CarControl_init_def)
  show ?thesis
    unfolding Let_def using a b
    by (simp add: LearningDriver_onRestart_def LearningDriver_init_def)
qed

subsection \<open>A malformed payload in the racing loop\<close>

lemma Driver_drive_malformed:
  "parse buf = None \<Longrightarrow> raised (Driver_drive B buf self) = Some AttributeError"
  by (simp add: Driver_drive_def state_setFromMsg_def setFromMsg_None)

lemma toMsg_nonempty: "toMsg B c = Inr out \<Longrightarrow> out \<noteq> []"
proof -
  have "Some [] \<notin> snd ` set (actions c)" by (simp add: actions_def)
  from stringify_loop_no_empty [OF this, of "py_str B" "[]"]
  show "toMsg B c = Inr out \<Longrightarrow> out \<noteq> []"
    by (auto simp: toMsg_def stringify_def actions_def)
qed

lemma LearningDriver_drive_malformed:
  "parse msg = None \<Longrightarrow>
   LearningDriver_drive B predict msg self =
     control_toMsg B (set_controls 0 0 0 (self\<lparr>state := (state self)\<lparr>sensors := None\<rparr>\<rparr>))"
  by (simp add: LearningDriver_drive_def drive_try_def state_setFromMsg_def setFromMsg_None)

text \<open>
  Claim C10 at its failing input. With the rule-based driver, the unterminated payload
  \<open>(angle 1.0\<close> makes \<open>parse\<close> return \<open>None\<close>, \<open>getFloatD\<close> raise \<open>AttributeError\<close>
  on it, and nothing catches the exception: the client ends instead of skipping the
  tick.
\<close>

theorem malformed_tick_uncaught:
  "racing_tick (rule_policy B) 0 (Some ''(angle 1.0'') send_ok (episode_start st) =
     Uncaught AttributeError \<and>
   (\<exists>out st'. racing_tick (learning_policy B predict) 0 (Some ''(angle 1.0'') True
        (episode_start st2) = Next (Some (Control out)) st')"
proof -
  have p: "parse ''(angle 1.0'' = None" by (simp add: parse_def find_def parse_loop.simps)
  let ?d = "set_controls 0 0 0 ((drv st2)\<lparr>state := (state (drv st2))\<lparr>sensors := None\<rparr>\<rparr>)"
  obtain out where out: "toMsg B (control ?d) = Inr out" using toMsg_Inr by blast
  then have "out \<noteq> []" by (rule toMsg_nonempty)
  with out have l: "\<exists>out st'. racing_tick (learning_policy B predict) 0 (Some ''(angle 1.0'') True
        (episode_start st2) = Next (Some (Control out)) st'"
    by (simp add: racing_tick_def learning_policy_def episode_start_def Let_def send_def
        LearningDriver_drive_malformed [OF p] control_toMsg_def)
  have "raised (Driver_drive B ''(angle 1.0'' (drv st)) = Some AttributeError"
    by (rule Driver_drive_malformed) (simp add: parse_def find_def parse_loop.simps)
  then have "racing_tick (rule_policy B) 0 (Some ''(angle 1.0'') send_ok (episode_start st) =
     Uncaught AttributeError"
    by (auto simp: racing_tick_def rule_policy_def episode_start_def Let_def split: res.splits)
  with l show ?thesis by blast
qed

end
